theory Spec2Isabelle
  imports Main
begin

section \<open>Data model\<close>

text \<open>
  The interfaces of the types module: the form the user fills in, the result of a run
  and the progress notification. JavaScript strings are modelled as \<open>string\<close>.
\<close>

record StoryFormData =
  name :: string
  character :: string
  setting :: string
  object :: string
  storyLength :: string

record StoryResult =
  story :: string
  scenes :: "string list"
  imageUrls :: "string list"
  audioBase64 :: "string option"

text \<open>
  A JavaScript number as far as the pipeline computes one: a natural number, or \<open>NaN\<close>
  (what \<open>undefined + 2\<close> evaluates to). Every comparison with \<open>NaN\<close> is false.
\<close>

datatype number = Num nat | NaN

fun number_le :: "number \<Rightarrow> number \<Rightarrow> bool" where
  "number_le (Num a) (Num b) = (a \<le> b)"
| "number_le _ _ = False"

text \<open>
  The six message templates of the progress notifications, in the order of the source
  (lines 52, 75, 90, 140, 148 and 166). The two templates of the image loop interpolate
  \<open>i + 1\<close> and \<open>numScenes\<close>; the latter may be \<open>undefined\<close> (\<open>None\<close>).
\<close>

datatype message =
    PlotMessage
  | StoryWrittenMessage
  | PaintingMessage nat "nat option"
  | IllustrationDoneMessage nat "nat option"
  | NarratorMessage
  | ReadyMessage

record ProgressUpdate =
  step :: nat
  totalSteps :: number
  message :: message

text \<open>
  The uploaded photo. \<open>fileToBase64\<close> resolves to the base64 text of the file or
  rejects with the reader's error (\<open>None\<close>); \<open>fileType\<close> is the file's \<open>type\<close>.
\<close>

record File =
  fileType :: string
  base64 :: "string option"

subsection \<open>The provider's responses\<close>

text \<open>
  The part of a \<open>GenerateContentResponse\<close> that the pipeline reads. Every optional
  field of the provider's interface is an \<open>option\<close>.
\<close>

record Blob =
  data :: "string option"
  mimeType :: "string option"

record Part =
  inlineData :: "Blob option"
  partText :: "string option"

record Content =
  parts :: "Part list option"

record Candidate =
  content :: "Content option"

text \<open>
  What the text stage gets out of \<open>JSON.parse(storyResponse.text).scenes\<close>:
  \<^item> \<open>Falsy\<close>: the field is absent (\<open>undefined\<close>), or \<open>null\<close>, \<open>false\<close>, \<open>0\<close> or the
    empty string, so that \<open>!scenes\<close> holds;
  \<^item> \<open>Array xs\<close>: an array of strings, as the response schema declares;
  \<^item> \<open>NonArray l\<close>: any other truthy value (a string, an object, a number, \<open>true\<close>),
    with the natural number its \<open>length\<close> property holds, if it holds one.
  The parse itself throws a \<open>SyntaxError\<close> on text that is not JSON (\<open>Unparsable\<close>),
  and reading \<open>scenes\<close> from the parsed value \<open>null\<close> throws a \<open>TypeError\<close>
  (\<open>NullData\<close>).
\<close>

datatype scenes_value = Falsy | Array "string list" | NonArray "nat option"

datatype story_data = Unparsable | NullData | Data scenes_value

record GenerateContentResponse =
  candidates :: "Candidate list option"
  parsedText :: story_data

subsection \<open>Requests, errors and the state of a run\<close>

text \<open>
  The three kinds of request the pipeline sends, each with the values its prompt is
  built from. An image request also records the loop index of its scene, so that the
  requests of two scenes with the same text are told apart in the log.
\<close>

datatype request =
    StoryRequest StoryFormData "nat option" "nat option"
  | PhotoImageRequest nat string string string
  | TextImageRequest nat string string
  | NarrationRequest string

text \<open>
  The provider: its answer to a request may depend on how many requests it has already
  received. \<open>None\<close> is a rejected promise (a transport or provider fault).
\<close>

type_synonym provider = "nat \<Rightarrow> request \<Rightarrow> GenerateContentResponse option"

text \<open>
  The errors a run can end with. The source throws plain \<open>Error\<close> objects that differ
  in their message; the names are those of the specification: \<open>TextGenerationError\<close>
  is thrown at line 78, \<open>ImageGenerationError\<close> at line 125,
  \<open>ImagePayloadMissingError\<close> at line 138 and \<open>SceneImageCountMismatch\<close> at line 144.
  The others are raised by the runtime or by an awaited promise.
\<close>

datatype error =
    ProviderFailure
  | SyntaxError
  | TypeError
  | TextGenerationError
  | FileReadError
  | ImageGenerationError
  | ImagePayloadMissingError
  | SceneImageCountMismatch

text \<open>
  The mutable state of one run: the counter \<open>currentStep\<close>, and two logs in order of
  occurrence: the notifications handed to \<open>onProgress\<close> and the requests sent.
\<close>

record run_state =
  currentStep :: nat
  emitted :: "ProgressUpdate list"
  issued :: "request list"

section \<open>The plan (lines 31 to 42)\<close>

text \<open>
  \<open>lengthOptions[key]\<close> is a property read on an object literal: it yields the own
  property, or else the property inherited from \<open>Object.prototype\<close>, or else
  \<open>undefined\<close>. Every inherited member is a function or an object, hence truthy, and
  has neither a \<open>scenes\<close> nor a \<open>words\<close> property.
\<close>

datatype property = Undefined | Inherited | LengthOption nat nat

definition Object_prototype :: "string list" where
  "Object_prototype =
     [''constructor'', ''hasOwnProperty'', ''isPrototypeOf'', ''propertyIsEnumerable'',
      ''toLocaleString'', ''toString'', ''valueOf'', ''__proto__'',
      ''__defineGetter__'', ''__defineSetter__'', ''__lookupGetter__'', ''__lookupSetter__'']"

definition lengthOptions :: "string \<Rightarrow> property" where
  "lengthOptions key =
     (if key = ''5'' then LengthOption 6 400
      else if key = ''10'' then LengthOption 8 800
      else if key = ''15'' then LengthOption 10 1200
      else if key = ''20'' then LengthOption 12 1600
      else if key \<in> set Object_prototype then Inherited
      else Undefined)"

definition selectedLength :: "StoryFormData \<Rightarrow> property" where
  "selectedLength formData =
     (case lengthOptions (storyLength formData) of
        Undefined \<Rightarrow> lengthOptions ''5''
      | p \<Rightarrow> p)"

definition numScenes :: "StoryFormData \<Rightarrow> nat option" where
  "numScenes formData =
     (case selectedLength formData of LengthOption s w \<Rightarrow> Some s | _ \<Rightarrow> None)"

definition totalWords :: "StoryFormData \<Rightarrow> nat option" where
  "totalWords formData =
     (case selectedLength formData of LengthOption s w \<Rightarrow> Some w | _ \<Rightarrow> None)"

definition totalSteps_of :: "StoryFormData \<Rightarrow> number" where
  "totalSteps_of formData = (case numScenes formData of Some n \<Rightarrow> Num (n + 2) | None \<Rightarrow> NaN)"

section \<open>Progress reporting and provider calls\<close>

text \<open>
  \<open>onProgress\<close> is the caller's callback: the model records the notification it is
  handed and takes the callback to return normally.
\<close>

definition onProgress :: "ProgressUpdate \<Rightarrow> run_state \<Rightarrow> run_state" where
  "onProgress update st = st\<lparr>emitted := emitted st @ [update]\<rparr>"

text \<open>Lines 52, 90 and 148: a notification at the current value of the counter.\<close>

definition report :: "StoryFormData \<Rightarrow> message \<Rightarrow> run_state \<Rightarrow> run_state" where
  "report formData msg st =
     onProgress \<lparr>step = currentStep st, totalSteps = totalSteps_of formData, message = msg\<rparr> st"

text \<open>Lines 44 to 47: the counter is incremented, then notified.\<close>

definition updateProgress :: "StoryFormData \<Rightarrow> message \<Rightarrow> run_state \<Rightarrow> run_state" where
  "updateProgress formData msg st =
     report formData msg (st\<lparr>currentStep := currentStep st + 1\<rparr>)"

definition generateContent ::
  "provider \<Rightarrow> request \<Rightarrow> run_state \<Rightarrow> GenerateContentResponse option \<times> run_state" where
  "generateContent ai req st = (ai (length (issued st)) req, st\<lparr>issued := issued st @ [req]\<rparr>)"

section \<open>The image stage (lines 83 to 145)\<close>

text \<open>\<open>response.candidates?.[0]?.content?.parts\<close>\<close>

definition candidate_parts :: "GenerateContentResponse \<Rightarrow> Part list option" where
  "candidate_parts r =
     (case candidates r of
        None \<Rightarrow> None
      | Some [] \<Rightarrow> None
      | Some (c # _) \<Rightarrow> (case content c of None \<Rightarrow> None | Some ct \<Rightarrow> parts ct))"

text \<open>Lines 128 to 136: the loop over the parts stops at the first one with inline data.\<close>

fun first_inlineData :: "Part list \<Rightarrow> Blob option" where
  "first_inlineData [] = None"
| "first_inlineData (p # ps) =
     (case inlineData p of Some b \<Rightarrow> Some b | None \<Rightarrow> first_inlineData ps)"

text \<open>A value interpolated into a template literal: \<open>undefined\<close> prints as its name.\<close>

definition interpolate :: "string option \<Rightarrow> string" where
  "interpolate v = (case v of None \<Rightarrow> ''undefined'' | Some s \<Rightarrow> s)"

definition imageUrl :: "Blob \<Rightarrow> string" where
  "imageUrl b = ''data:image/png;base64,'' @ interpolate (data b)"

text \<open>
  Lines 94 to 121: the request with the photo and, when its response has no content
  parts, the request without it. The result is the \<open>parts\<close> of the candidate that
  line 123 then tests.
\<close>

definition attempt_image ::
  "provider \<Rightarrow> StoryFormData \<Rightarrow> string \<Rightarrow> File \<Rightarrow> string \<Rightarrow> nat \<Rightarrow> run_state
     \<Rightarrow> (error + Part list option) \<times> run_state" where
  "attempt_image ai formData photoBase64 childPhoto scene i st =
     (case generateContent ai (PhotoImageRequest i photoBase64 (fileType childPhoto) scene) st of
        (None, st1) \<Rightarrow> (Inl ProviderFailure, st1)
      | (Some imageResponse, st1) \<Rightarrow>
          (case candidate_parts imageResponse of
             Some ps \<Rightarrow> (Inr (Some ps), st1)
           | None \<Rightarrow>
               (case generateContent ai (TextImageRequest i scene (character formData)) st1 of
                  (None, st2) \<Rightarrow> (Inl ProviderFailure, st2)
                | (Some imageResponse2, st2) \<Rightarrow> (Inr (candidate_parts imageResponse2), st2))))"

text \<open>Lines 89 to 140: the body of the loop, for the scene at index \<open>i\<close>.\<close>

definition scene_image ::
  "provider \<Rightarrow> StoryFormData \<Rightarrow> string \<Rightarrow> File \<Rightarrow> string \<Rightarrow> nat \<Rightarrow> run_state
     \<Rightarrow> (error + string) \<times> run_state" where
  "scene_image ai formData photoBase64 childPhoto scene i st =
     (case attempt_image ai formData photoBase64 childPhoto scene i
             (report formData (PaintingMessage (i + 1) (numScenes formData)) st) of
        (Inl e, st1) \<Rightarrow> (Inl e, st1)
      | (Inr None, st1) \<Rightarrow> (Inl ImageGenerationError, st1)
      | (Inr (Some ps), st1) \<Rightarrow>
          (case first_inlineData ps of
             None \<Rightarrow> (Inl ImagePayloadMissingError, st1)
           | Some b \<Rightarrow>
               (Inr (imageUrl b),
                updateProgress formData (IllustrationDoneMessage (i + 1) (numScenes formData)) st1)))"

text \<open>Lines 88 to 141: the loop, with the list \<open>imageUrls\<close> it appends to.\<close>

function image_loop ::
  "provider \<Rightarrow> StoryFormData \<Rightarrow> string \<Rightarrow> File \<Rightarrow> string list \<Rightarrow> nat \<Rightarrow> string list
     \<Rightarrow> run_state \<Rightarrow> (error + string list) \<times> run_state" where
  "image_loop ai formData photoBase64 childPhoto scs i urls st =
     (if i < length scs then
        (case scene_image ai formData photoBase64 childPhoto (scs ! i) i st of
           (Inl e, st1) \<Rightarrow> (Inl e, st1)
         | (Inr url, st1) \<Rightarrow>
             image_loop ai formData photoBase64 childPhoto scs (i + 1) (urls @ [url]) st1)
      else (Inr urls, st))"
  by pat_completeness auto
termination
  by (relation "measure (\<lambda>(ai, formData, photoBase64, childPhoto, scs, i, urls, st). length scs - i)")
     auto

declare image_loop.simps [simp del]

section \<open>The audio stage (lines 147 to 173)\<close>

text \<open>\<open>audioResponse.candidates?.[0]?.content?.parts?.[0]?.inlineData?.data\<close>\<close>

definition first_part_data :: "GenerateContentResponse \<Rightarrow> string option" where
  "first_part_data r =
     (case candidate_parts r of
        None \<Rightarrow> None
      | Some [] \<Rightarrow> None
      | Some (p # _) \<Rightarrow> (case inlineData p of None \<Rightarrow> None | Some b \<Rightarrow> data b))"

definition narrate ::
  "provider \<Rightarrow> StoryFormData \<Rightarrow> string \<Rightarrow> string list \<Rightarrow> string list \<Rightarrow> run_state
     \<Rightarrow> (error + StoryResult) \<times> run_state" where
  "narrate ai formData text scs urls st =
     (case generateContent ai (NarrationRequest text) (report formData NarratorMessage st) of
        (None, st1) \<Rightarrow> (Inl ProviderFailure, st1)
      | (Some audioResponse, st1) \<Rightarrow>
          (Inr \<lparr>story = text, scenes = scs, imageUrls = urls,
                audioBase64 = first_part_data audioResponse\<rparr>,
           updateProgress formData ReadyMessage st1))"

section \<open>The pipeline\<close>

text \<open>\<open>Array.prototype.join\<close> on an array of strings.\<close>

fun join :: "string \<Rightarrow> string list \<Rightarrow> string" where
  "join sep [] = []"
| "join sep [x] = x"
| "join sep (x # y # ys) = x @ sep @ join sep (y # ys)"

definition blank_line :: string where
  "blank_line = [CHR 0x0A, CHR 0x0A]"

text \<open>The value of \<open>scenes.length\<close> for a truthy \<open>scenes\<close>.\<close>

fun length_of :: "scenes_value \<Rightarrow> nat option" where
  "length_of (Array xs) = Some (length xs)"
| "length_of (NonArray l) = l"
| "length_of Falsy = None"

text \<open>
  Lines 77 to 173, after the notification of line 75. A truthy \<open>scenes\<close> that passes
  the length test without being an array has no \<open>join\<close> method: line 81 throws a
  \<open>TypeError\<close>.
\<close>

definition illustrate_and_narrate ::
  "provider \<Rightarrow> StoryFormData \<Rightarrow> File \<Rightarrow> scenes_value \<Rightarrow> run_state
     \<Rightarrow> (error + StoryResult) \<times> run_state" where
  "illustrate_and_narrate ai formData childPhoto sv st =
     (if sv = Falsy \<or> length_of sv \<noteq> numScenes formData then (Inl TextGenerationError, st)
      else
        (case sv of
           Array scs \<Rightarrow>
             (case base64 childPhoto of
                None \<Rightarrow> (Inl FileReadError, st)
              | Some photoBase64 \<Rightarrow>
                  (case image_loop ai formData photoBase64 childPhoto scs 0 [] st of
                     (Inl e, st1) \<Rightarrow> (Inl e, st1)
                   | (Inr urls, st1) \<Rightarrow>
                       if Some (length urls) \<noteq> numScenes formData
                       then (Inl SceneImageCountMismatch, st1)
                       else narrate ai formData (join blank_line scs) scs urls st1))
         | _ \<Rightarrow> (Inl TypeError, st)))"

text \<open>
  Lines 30 to 75 and the rest: the whole run, which returns the result or the error
  thrown, and the final state with the two logs.
\<close>

definition generateStoryWithImage ::
  "provider \<Rightarrow> StoryFormData \<Rightarrow> File \<Rightarrow> (error + StoryResult) \<times> run_state" where
  "generateStoryWithImage ai formData childPhoto =
     (case generateContent ai
             (StoryRequest formData (numScenes formData) (totalWords formData))
             (report formData PlotMessage \<lparr>currentStep = 0, emitted = [], issued = []\<rparr>) of
        (None, st1) \<Rightarrow> (Inl ProviderFailure, st1)
      | (Some storyResponse, st1) \<Rightarrow>
          (case parsedText storyResponse of
             Unparsable \<Rightarrow> (Inl SyntaxError, st1)
           | NullData \<Rightarrow> (Inl TypeError, st1)
           | Data sv \<Rightarrow>
               illustrate_and_narrate ai formData childPhoto sv
                 (updateProgress formData StoryWrittenMessage st1)))"

section \<open>Observing a run\<close>

text \<open>
  What a caller and a scripted provider can observe of one run: the value returned or
  the error thrown, the notifications in the order \<open>onProgress\<close> received them, and the
  requests in the order the provider received them. The request at position \<open>k\<close> of the
  log is the one the provider answered with \<open>ai k\<close>.
\<close>

definition result_of :: "provider \<Rightarrow> StoryFormData \<Rightarrow> File \<Rightarrow> error + StoryResult" where
  "result_of ai formData childPhoto = fst (generateStoryWithImage ai formData childPhoto)"

definition progress_events :: "provider \<Rightarrow> StoryFormData \<Rightarrow> File \<Rightarrow> ProgressUpdate list" where
  "progress_events ai formData childPhoto =
     emitted (snd (generateStoryWithImage ai formData childPhoto))"

definition requests_sent :: "provider \<Rightarrow> StoryFormData \<Rightarrow> File \<Rightarrow> request list" where
  "requests_sent ai formData childPhoto =
     issued (snd (generateStoryWithImage ai formData childPhoto))"

text \<open>The state in which line 77 is reached: one request sent, two notifications.\<close>

definition text_state :: "StoryFormData \<Rightarrow> run_state" where
  "text_state formData =
     \<lparr>currentStep = 1,
      emitted = [\<lparr>step = 0, totalSteps = totalSteps_of formData, message = PlotMessage\<rparr>,
                 \<lparr>step = 1, totalSteps = totalSteps_of formData,
                  message = StoryWrittenMessage\<rparr>],
      issued = [StoryRequest formData (numScenes formData) (totalWords formData)]\<rparr>"

text \<open>The scene an image request belongs to, and the requests without the photo.\<close>

fun scene_index :: "request \<Rightarrow> nat option" where
  "scene_index (PhotoImageRequest i _ _ _) = Some i"
| "scene_index (TextImageRequest i _ _) = Some i"
| "scene_index _ = None"

fun fallback_for :: "nat \<Rightarrow> request \<Rightarrow> bool" where
  "fallback_for j (TextImageRequest i _ _) = (i = j)"
| "fallback_for j _ = False"

fun is_narration :: "request \<Rightarrow> bool" where
  "is_narration (NarrationRequest _) = True"
| "is_narration _ = False"

text \<open>
  The specification's reading of the audio stage, "the first audio payload found in the
  response": every inline payload of the response, over all candidates and all their
  parts in order, and the first of them.
\<close>

definition part_payloads :: "Part \<Rightarrow> string list" where
  "part_payloads p =
     (case inlineData p of
        None \<Rightarrow> []
      | Some b \<Rightarrow> (case data b of None \<Rightarrow> [] | Some d \<Rightarrow> [d]))"

definition candidate_payloads :: "Candidate \<Rightarrow> string list" where
  "candidate_payloads c =
     (case content c of
        None \<Rightarrow> []
      | Some ct \<Rightarrow> (case parts ct of None \<Rightarrow> [] | Some ps \<Rightarrow> concat (map part_payloads ps)))"

definition payloads_found :: "GenerateContentResponse \<Rightarrow> string list" where
  "payloads_found r =
     (case candidates r of None \<Rightarrow> [] | Some cs \<Rightarrow> concat (map candidate_payloads cs))"

definition first_payload_found :: "GenerateContentResponse \<Rightarrow> string option" where
  "first_payload_found r = (case payloads_found r of [] \<Rightarrow> None | d # _ \<Rightarrow> Some d)"

text \<open>
  A provider that declares other media types: \<open>relabel g\<close> replaces the \<open>mimeType\<close> of
  every inline payload of a response and leaves everything else as it is.
\<close>

definition relabel_part :: "(string option \<Rightarrow> string option) \<Rightarrow> Part \<Rightarrow> Part" where
  "relabel_part g p =
     p\<lparr>inlineData := map_option (\<lambda>b. b\<lparr>mimeType := g (mimeType b)\<rparr>) (inlineData p)\<rparr>"

definition relabel_candidate :: "(string option \<Rightarrow> string option) \<Rightarrow> Candidate \<Rightarrow> Candidate" where
  "relabel_candidate g c =
     c\<lparr>content :=
         map_option (\<lambda>ct. ct\<lparr>parts := map_option (map (relabel_part g)) (parts ct)\<rparr>) (content c)\<rparr>"

definition relabel ::
  "(string option \<Rightarrow> string option) \<Rightarrow> GenerateContentResponse \<Rightarrow> GenerateContentResponse" where
  "relabel g r = r\<lparr>candidates := map_option (map (relabel_candidate g)) (candidates r)\<rparr>"

definition relabelled :: "(string option \<Rightarrow> string option) \<Rightarrow> provider \<Rightarrow> provider" where
  "relabelled g ai = (\<lambda>k req. map_option (relabel g) (ai k req))"

section \<open>Scripted providers\<close>

text \<open>
  A form, a photo and providers that answer from a script, for running the pipeline on
  concrete inputs.
\<close>

definition example_form :: StoryFormData where
  "example_form =
     \<lparr>name = ''Eva'', character = ''a fox'', setting = ''the forest'', object = ''a lantern'',
      storyLength = ''5''\<rparr>"

definition example_photo :: File where
  "example_photo = \<lparr>fileType = ''image/jpeg'', base64 = Some ''QUJD''\<rparr>"

definition example_scenes :: "string list" where
  "example_scenes = [''one'', ''two'', ''three'', ''four'', ''five'', ''six'']"

definition text_part :: "string \<Rightarrow> Part" where
  "text_part t = \<lparr>inlineData = None, partText = Some t\<rparr>"

definition inline_part :: "string \<Rightarrow> string \<Rightarrow> Part" where
  "inline_part d m = \<lparr>inlineData = Some \<lparr>data = Some d, mimeType = Some m\<rparr>, partText = None\<rparr>"

definition parts_response :: "Part list \<Rightarrow> GenerateContentResponse" where
  "parts_response ps =
     \<lparr>candidates = Some [\<lparr>content = Some \<lparr>parts = Some ps\<rparr>\<rparr>], parsedText = Unparsable\<rparr>"

definition blocked_response :: GenerateContentResponse where
  "blocked_response = \<lparr>candidates = Some [\<lparr>content = None\<rparr>], parsedText = Unparsable\<rparr>"

definition scenes_response :: "string list \<Rightarrow> GenerateContentResponse" where
  "scenes_response xs = \<lparr>candidates = None, parsedText = Data (Array xs)\<rparr>"

text \<open>
  Six scenes; the photo is refused for the scene at index 2, whose image comes from the
  request without the photo; the narration is answered with the given response.
\<close>

definition example_provider :: "GenerateContentResponse \<Rightarrow> provider" where
  "example_provider narration k req =
     (case req of
        StoryRequest _ _ _ \<Rightarrow> Some (scenes_response example_scenes)
      | PhotoImageRequest i _ _ _ \<Rightarrow>
          if i = 2 then Some blocked_response
          else Some (parts_response [text_part ''Here it is.'', inline_part ''SU1H'' ''image/jpeg''])
      | TextImageRequest _ _ _ \<Rightarrow> Some (parts_response [inline_part ''RkFMTA'' ''image/webp''])
      | NarrationRequest _ \<Rightarrow> Some narration)"

definition spoken_response :: GenerateContentResponse where
  "spoken_response = parts_response [inline_part ''U05E'' ''audio/L16'']"

text \<open>A narration whose audio is the second part of the response, after a text part.\<close>

definition chatty_narration :: GenerateContentResponse where
  "chatty_narration =
     parts_response [text_part ''Here is the narration.'', inline_part ''U05E'' ''audio/L16'']"

definition example_images :: "string list" where
  "example_images =
     [''data:image/png;base64,SU1H'', ''data:image/png;base64,SU1H'',
      ''data:image/png;base64,RkFMTA'', ''data:image/png;base64,SU1H'',
      ''data:image/png;base64,SU1H'', ''data:image/png;base64,SU1H'']"

definition example_result :: "GenerateContentResponse \<Rightarrow> StoryResult" where
  "example_result narration =
     \<lparr>story = join blank_line example_scenes, scenes = example_scenes,
      imageUrls = example_images, audioBase64 = first_part_data narration\<rparr>"

definition example_requests :: "request list" where
  "example_requests =
     [StoryRequest example_form (Some 6) (Some 400),
      PhotoImageRequest 0 ''QUJD'' ''image/jpeg'' ''one'',
      PhotoImageRequest 1 ''QUJD'' ''image/jpeg'' ''two'',
      PhotoImageRequest 2 ''QUJD'' ''image/jpeg'' ''three'',
      TextImageRequest 2 ''three'' ''a fox'',
      PhotoImageRequest 3 ''QUJD'' ''image/jpeg'' ''four'',
      PhotoImageRequest 4 ''QUJD'' ''image/jpeg'' ''five'',
      PhotoImageRequest 5 ''QUJD'' ''image/jpeg'' ''six'']"

definition example_events :: "ProgressUpdate list" where
  "example_events =
     [\<lparr>step = 0, totalSteps = Num 8, message = PlotMessage\<rparr>,
      \<lparr>step = 1, totalSteps = Num 8, message = StoryWrittenMessage\<rparr>,
      \<lparr>step = 1, totalSteps = Num 8, message = PaintingMessage 1 (Some 6)\<rparr>,
      \<lparr>step = 2, totalSteps = Num 8, message = IllustrationDoneMessage 1 (Some 6)\<rparr>,
      \<lparr>step = 2, totalSteps = Num 8, message = PaintingMessage 2 (Some 6)\<rparr>,
      \<lparr>step = 3, totalSteps = Num 8, message = IllustrationDoneMessage 2 (Some 6)\<rparr>,
      \<lparr>step = 3, totalSteps = Num 8, message = PaintingMessage 3 (Some 6)\<rparr>,
      \<lparr>step = 4, totalSteps = Num 8, message = IllustrationDoneMessage 3 (Some 6)\<rparr>,
      \<lparr>step = 4, totalSteps = Num 8, message = PaintingMessage 4 (Some 6)\<rparr>,
      \<lparr>step = 5, totalSteps = Num 8, message = IllustrationDoneMessage 4 (Some 6)\<rparr>,
      \<lparr>step = 5, totalSteps = Num 8, message = PaintingMessage 5 (Some 6)\<rparr>,
      \<lparr>step = 6, totalSteps = Num 8, message = IllustrationDoneMessage 5 (Some 6)\<rparr>,
      \<lparr>step = 6, totalSteps = Num 8, message = PaintingMessage 6 (Some 6)\<rparr>,
      \<lparr>step = 7, totalSteps = Num 8, message = IllustrationDoneMessage 6 (Some 6)\<rparr>]"



text \<open>Two scenes where six were asked for.\<close>

definition short_provider :: provider where
  "short_provider k req = Some (scenes_response [''one'', ''two''])"

section \<open>Laws of the request log\<close>

text \<open>
  Predicates on the request log, one position at a time, for the proofs about the image
  loop. \<open>fallback_settled\<close> and \<open>image_settled\<close> hold of the positions the loop has
  left behind while it goes on; \<open>fallback_law\<close> and \<open>image_law\<close> are what remains true of
  every position when the run has ended, with a result or with an error.
\<close>

definition fallback_settled :: "provider \<Rightarrow> StoryFormData \<Rightarrow> request list \<Rightarrow> nat \<Rightarrow> bool" where
  "fallback_settled ai fd log k \<longleftrightarrow>
     (\<forall>j pb ty sc r.
        log ! k = PhotoImageRequest j pb ty sc \<and> ai k (log ! k) = Some r \<and>
        candidate_parts r = None \<longrightarrow>
        Suc k < length log \<and> log ! Suc k = TextImageRequest j sc (character fd) \<and>
        (\<forall>r2. ai (Suc k) (log ! Suc k) = Some r2 \<longrightarrow> candidate_parts r2 \<noteq> None))"

definition fallback_law ::
  "provider \<Rightarrow> StoryFormData \<Rightarrow> request list \<Rightarrow> bool \<Rightarrow> nat \<Rightarrow> bool" where
  "fallback_law ai fd log failed k \<longleftrightarrow>
     (\<forall>j pb ty sc r.
        log ! k = PhotoImageRequest j pb ty sc \<and> ai k (log ! k) = Some r \<and>
        candidate_parts r = None \<longrightarrow>
        Suc k < length log \<and> log ! Suc k = TextImageRequest j sc (character fd) \<and>
        (\<forall>r2. ai (Suc k) (log ! Suc k) = Some r2 \<and> candidate_parts r2 = None \<longrightarrow>
           failed \<and> length log = k + 2))"

definition image_settled :: "provider \<Rightarrow> request list \<Rightarrow> string list \<Rightarrow> nat \<Rightarrow> bool" where
  "image_settled ai log urls k \<longleftrightarrow>
     (\<forall>j r ps.
        scene_index (log ! k) = Some j \<and> ai k (log ! k) = Some r \<and>
        candidate_parts r = Some ps \<longrightarrow>
        (\<exists>b. first_inlineData ps = Some b \<and> j < length urls \<and> urls ! j = imageUrl b))"

definition image_law ::
  "provider \<Rightarrow> request list \<Rightarrow> bool \<Rightarrow> string list option \<Rightarrow> nat \<Rightarrow> bool" where
  "image_law ai log missing imgs k \<longleftrightarrow>
     (\<forall>j r ps.
        scene_index (log ! k) = Some j \<and> ai k (log ! k) = Some r \<and>
        candidate_parts r = Some ps \<longrightarrow>
        (case first_inlineData ps of
           None \<Rightarrow> missing
         | Some b \<Rightarrow> (\<forall>urls. imgs = Some urls \<longrightarrow> j < length urls \<and> urls ! j = imageUrl b)))"

section \<open>Stepwise description of a run\<close>

lemma report_simps [simp]:
  "currentStep (report fd m st) = currentStep st"
  "emitted (report fd m st) =
     emitted st @ [\<lparr>step = currentStep st, totalSteps = totalSteps_of fd, message = m\<rparr>]"
  "issued (report fd m st) = issued st"
  by (simp_all add: report_def onProgress_def)

lemma updateProgress_simps [simp]:
  "currentStep (updateProgress fd m st) = currentStep st + 1"
  "emitted (updateProgress fd m st) =
     emitted st @ [\<lparr>step = currentStep st + 1, totalSteps = totalSteps_of fd, message = m\<rparr>]"
  "issued (updateProgress fd m st) = issued st"
  by (simp_all add: updateProgress_def)

lemma generateContent_simps [simp]:
  "fst (generateContent ai req st) = ai (length (issued st)) req"
  "currentStep (snd (generateContent ai req st)) = currentStep st"
  "emitted (snd (generateContent ai req st)) = emitted st"
  "issued (snd (generateContent ai req st)) = issued st @ [req]"
  by (simp_all add: generateContent_def)

lemma generateContent_eq:
  "generateContent ai req st = (r, st') \<longleftrightarrow>
     r = ai (length (issued st)) req \<and> st' = st\<lparr>issued := issued st @ [req]\<rparr>"
  by (auto simp: generateContent_def)

lemma scene_image_cases:
  fixes ai fd pb ph scene i st
  defines "n \<equiv> length (issued st)"
    and "c \<equiv> PhotoImageRequest i pb (fileType ph) scene"
    and "f \<equiv> TextImageRequest i scene (character fd)"
    and "paint \<equiv> \<lparr>step = currentStep st, totalSteps = totalSteps_of fd,
                    message = PaintingMessage (i + 1) (numScenes fd)\<rparr>"
    and "painted \<equiv> \<lparr>step = currentStep st + 1, totalSteps = totalSteps_of fd,
                    message = IllustrationDoneMessage (i + 1) (numScenes fd)\<rparr>"
  assumes run: "scene_image ai fd pb ph scene i st = (res, st')"
  obtains
    (rejected) "ai n c = None" "res = Inl ProviderFailure"
      "issued st' = issued st @ [c]" "emitted st' = emitted st @ [paint]"
      "currentStep st' = currentStep st"
  | (direct) r ps where "ai n c = Some r" "candidate_parts r = Some ps"
      "first_inlineData ps = None \<and> res = Inl ImagePayloadMissingError
         \<and> emitted st' = emitted st @ [paint] \<and> currentStep st' = currentStep st
       \<or> (\<exists>b. first_inlineData ps = Some b \<and> res = Inr (imageUrl b)
         \<and> emitted st' = emitted st @ [paint, painted] \<and> currentStep st' = currentStep st + 1)"
      "issued st' = issued st @ [c]"
  | (fallback_rejected) r where "ai n c = Some r" "candidate_parts r = None"
      "ai (n + 1) f = None" "res = Inl ProviderFailure"
      "issued st' = issued st @ [c, f]" "emitted st' = emitted st @ [paint]"
      "currentStep st' = currentStep st"
  | (both_empty) r r2 where "ai n c = Some r" "candidate_parts r = None"
      "ai (n + 1) f = Some r2" "candidate_parts r2 = None" "res = Inl ImageGenerationError"
      "issued st' = issued st @ [c, f]" "emitted st' = emitted st @ [paint]"
      "currentStep st' = currentStep st"
  | (fallback) r r2 ps where "ai n c = Some r" "candidate_parts r = None"
      "ai (n + 1) f = Some r2" "candidate_parts r2 = Some ps"
      "first_inlineData ps = None \<and> res = Inl ImagePayloadMissingError
         \<and> emitted st' = emitted st @ [paint] \<and> currentStep st' = currentStep st
       \<or> (\<exists>b. first_inlineData ps = Some b \<and> res = Inr (imageUrl b)
         \<and> emitted st' = emitted st @ [paint, painted] \<and> currentStep st' = currentStep st + 1)"
      "issued st' = issued st @ [c, f]"
  using run unfolding scene_image_def attempt_image_def generateContent_def n_def c_def f_def
    paint_def painted_def
  by (auto split: option.splits sum.splits prod.splits if_splits)


lemma image_loop_rule:
  assumes run: "image_loop ai fd pb ph scs i urls st = (res, st')"
    and init: "I i urls st"
    and step: "\<And>i urls st url st1. i < length scs \<Longrightarrow> I i urls st \<Longrightarrow>
                 scene_image ai fd pb ph (scs ! i) i st = (Inr url, st1) \<Longrightarrow>
                 I (i + 1) (urls @ [url]) st1"
    and failed: "\<And>i urls st e st1. i < length scs \<Longrightarrow> I i urls st \<Longrightarrow>
                 scene_image ai fd pb ph (scs ! i) i st = (Inl e, st1) \<Longrightarrow> Q (Inl e) st1"
    and finished: "\<And>i urls st. \<not> i < length scs \<Longrightarrow> I i urls st \<Longrightarrow> Q (Inr urls) st"
  shows "Q res st'"
  using run init step failed finished
proof (induction ai fd pb ph scs i urls st rule: image_loop.induct)
  case (1 ai fd pb ph scs i urls st)
  note run = "1.prems"(1) and init = "1.prems"(2) and step = "1.prems"(3)
    and failed = "1.prems"(4) and finished = "1.prems"(5)
  show ?case
  proof (cases "i < length scs")
    case False
    with run have "res = Inr urls" "st' = st"
      by (simp_all add: image_loop.simps [of ai fd pb ph scs i urls st])
    with finished [OF False init] show ?thesis by simp
  next
    case True
    obtain r st1 where body: "scene_image ai fd pb ph (scs ! i) i st = (r, st1)"
      by (cases "scene_image ai fd pb ph (scs ! i) i st")
    show ?thesis
    proof (cases r)
      case (Inl e)
      with True body run have "res = Inl e" "st' = st1"
        by (simp_all add: image_loop.simps [of ai fd pb ph scs i urls st])
      with failed [OF True init body [unfolded Inl]] show ?thesis by simp
    next
      case (Inr url)
      with True body run
      have next_run: "image_loop ai fd pb ph scs (i + 1) (urls @ [url]) st1 = (res, st')"
        by (simp add: image_loop.simps [of ai fd pb ph scs i urls st])
      have next_inv: "I (i + 1) (urls @ [url]) st1"
        using step [OF True init body [unfolded Inr]] .
      show ?thesis
        by (rule "1.IH" [OF True body [symmetric, unfolded Inr] refl next_run next_inv])
           (fact step failed finished)+
    qed
  qed
qed


lemma run_cases:
  fixes ai fd ph
  defines "sreq \<equiv> StoryRequest fd (numScenes fd) (totalWords fd)"
    and "ev0 \<equiv> \<lparr>step = 0, totalSteps = totalSteps_of fd, message = PlotMessage\<rparr>"
  assumes run: "generateStoryWithImage ai fd ph = (res, st)"
  obtains
    (text_rejected) "ai 0 sreq = None" "res = Inl ProviderFailure"
      "issued st = [sreq]" "emitted st = [ev0]" "currentStep st = 0"
  | (unparsable) r where "ai 0 sreq = Some r" "parsedText r = Unparsable \<and> res = Inl SyntaxError
        \<or> parsedText r = NullData \<and> res = Inl TypeError"
      "issued st = [sreq]" "emitted st = [ev0]" "currentStep st = 0"
  | (text_error) r sv where "ai 0 sreq = Some r" "parsedText r = Data sv"
      "sv = Falsy \<or> length_of sv \<noteq> numScenes fd" "res = Inl TextGenerationError"
      "st = text_state fd"
  | (not_array) r l where "ai 0 sreq = Some r" "parsedText r = Data (NonArray l)"
      "l = numScenes fd" "res = Inl TypeError" "st = text_state fd"
  | (file_error) r scs where "ai 0 sreq = Some r" "parsedText r = Data (Array scs)"
      "Some (length scs) = numScenes fd" "base64 ph = None" "res = Inl FileReadError"
      "st = text_state fd"
  | (image_failed) r scs pb e where "ai 0 sreq = Some r" "parsedText r = Data (Array scs)"
      "Some (length scs) = numScenes fd" "base64 ph = Some pb"
      "image_loop ai fd pb ph scs 0 [] (text_state fd) = (Inl e, st)" "res = Inl e"
  | (mismatch) r scs pb urls where "ai 0 sreq = Some r" "parsedText r = Data (Array scs)"
      "Some (length scs) = numScenes fd" "base64 ph = Some pb"
      "image_loop ai fd pb ph scs 0 [] (text_state fd) = (Inr urls, st)"
      "Some (length urls) \<noteq> numScenes fd" "res = Inl SceneImageCountMismatch"
  | (audio_rejected) r scs pb urls st2 where "ai 0 sreq = Some r"
      "parsedText r = Data (Array scs)" "Some (length scs) = numScenes fd" "base64 ph = Some pb"
      "image_loop ai fd pb ph scs 0 [] (text_state fd) = (Inr urls, st2)"
      "Some (length urls) = numScenes fd"
      "ai (length (issued st2)) (NarrationRequest (join blank_line scs)) = None"
      "res = Inl ProviderFailure"
      "issued st = issued st2 @ [NarrationRequest (join blank_line scs)]"
      "emitted st = emitted st2 @
         [\<lparr>step = currentStep st2, totalSteps = totalSteps_of fd, message = NarratorMessage\<rparr>]"
      "currentStep st = currentStep st2"
  | (success) r scs pb urls st2 ra where "ai 0 sreq = Some r"
      "parsedText r = Data (Array scs)" "Some (length scs) = numScenes fd" "base64 ph = Some pb"
      "image_loop ai fd pb ph scs 0 [] (text_state fd) = (Inr urls, st2)"
      "Some (length urls) = numScenes fd"
      "ai (length (issued st2)) (NarrationRequest (join blank_line scs)) = Some ra"
      "res = Inr \<lparr>story = join blank_line scs, scenes = scs, imageUrls = urls,
                    audioBase64 = first_part_data ra\<rparr>"
      "issued st = issued st2 @ [NarrationRequest (join blank_line scs)]"
      "emitted st = emitted st2 @
         [\<lparr>step = currentStep st2, totalSteps = totalSteps_of fd, message = NarratorMessage\<rparr>,
          \<lparr>step = currentStep st2 + 1, totalSteps = totalSteps_of fd, message = ReadyMessage\<rparr>]"
      "currentStep st = currentStep st2 + 1"
proof -
  let ?st0 = "\<lparr>currentStep = 0, emitted = [ev0], issued = [sreq]\<rparr>"
  have first_call: "generateContent ai sreq
         (report fd PlotMessage \<lparr>currentStep = 0, emitted = [], issued = []\<rparr>) = (ai 0 sreq, ?st0)"
    by (simp add: generateContent_def report_def onProgress_def ev0_def)
  have st0: "issued ?st0 = [sreq]" "emitted ?st0 = [ev0]" "currentStep ?st0 = 0"
    by simp_all
  have start: "updateProgress fd StoryWrittenMessage ?st0 = text_state fd"
    by (simp add: text_state_def updateProgress_def report_def onProgress_def
        sreq_def ev0_def)
  show ?thesis
  proof (cases "ai 0 sreq")
    case None
    with run first_call have "res = Inl ProviderFailure" "st = ?st0"
      by (simp_all add: generateStoryWithImage_def sreq_def)
    with None st0 text_rejected show ?thesis by simp
  next
    case (Some r)
    show ?thesis
    proof (cases "parsedText r")
      case Unparsable
      with Some run first_call have "res = Inl SyntaxError" "st = ?st0"
        by (simp_all add: generateStoryWithImage_def sreq_def)
      with Some Unparsable st0 unparsable [of r] show ?thesis by simp
    next
      case NullData
      with Some run first_call have "res = Inl TypeError" "st = ?st0"
        by (simp_all add: generateStoryWithImage_def sreq_def)
      with Some NullData st0 unparsable [of r] show ?thesis by simp
    next
      case (Data sv)
      with Some run first_call start
      have rest: "illustrate_and_narrate ai fd ph sv (text_state fd) = (res, st)"
        by (simp add: generateStoryWithImage_def sreq_def)
      show ?thesis
      proof (cases "sv = Falsy \<or> length_of sv \<noteq> numScenes fd")
        case True
        with rest have "res = Inl TextGenerationError" "st = text_state fd"
          by (simp_all add: illustrate_and_narrate_def)
        with Some Data True text_error [of r sv] show ?thesis by simp
      next
        case False
        show ?thesis
        proof (cases sv)
          case Falsy
          with False show ?thesis by simp
        next
          case (NonArray l)
          with False rest have "res = Inl TypeError" "st = text_state fd" "l = numScenes fd"
            by (simp_all add: illustrate_and_narrate_def)
          with Some Data NonArray not_array [of r l] show ?thesis by simp
        next
          case (Array scs)
          with False have len: "Some (length scs) = numScenes fd" by simp
          show ?thesis
          proof (cases "base64 ph")
            case None
            with Array len rest have "res = Inl FileReadError" "st = text_state fd"
              by (simp_all add: illustrate_and_narrate_def)
            with Some Data Array len None file_error [of r scs] show ?thesis by simp
          next
            case pb: (Some pb)
            obtain lr st2 where loop: "image_loop ai fd pb ph scs 0 [] (text_state fd) = (lr, st2)"
              by (cases "image_loop ai fd pb ph scs 0 [] (text_state fd)")
            show ?thesis
            proof (cases lr)
              case (Inl e)
              with Array len pb loop rest have "res = Inl e" "st = st2"
                by (simp_all add: illustrate_and_narrate_def)
              with Some Data Array len pb loop Inl image_failed [of r scs pb e]
              show ?thesis by simp
            next
              case (Inr urls)
              show ?thesis
              proof (cases "Some (length urls) = numScenes fd")
                case False
                with Array len pb loop Inr rest
                have "res = Inl SceneImageCountMismatch" "st = st2"
                  by (simp_all add: illustrate_and_narrate_def)
                with Some Data Array len pb loop Inr False mismatch [of r scs pb urls]
                show ?thesis by simp
              next
                case True
                with Array len pb loop Inr rest
                have audio: "narrate ai fd (join blank_line scs) scs urls st2 = (res, st)"
                  by (simp add: illustrate_and_narrate_def)
                let ?nreq = "NarrationRequest (join blank_line scs)"
                show ?thesis
                proof (cases "ai (length (issued st2)) ?nreq")
                  case None
                  with audio have "res = Inl ProviderFailure"
                    "st = snd (generateContent ai ?nreq (report fd NarratorMessage st2))"
                    by (simp_all add: narrate_def generateContent_def)
                  then show ?thesis
                    using audio_rejected [of r scs pb urls st2] Some Data Array len pb loop Inr
                      True None
                    by simp
                next
                  case ra: (Some ra)
                  with audio have "res = Inr \<lparr>story = join blank_line scs, scenes = scs,
                      imageUrls = urls, audioBase64 = first_part_data ra\<rparr>"
                    "st = updateProgress fd ReadyMessage
                       (snd (generateContent ai ?nreq (report fd NarratorMessage st2)))"
                    by (simp_all add: narrate_def generateContent_def)
                  then show ?thesis
                    using success [of r scs pb urls st2 ra] Some Data Array len pb loop Inr
                      True ra
                    by simp
                qed
              qed
            qed
          qed
        qed
      qed
    qed
  qed
qed

lemma image_loop_progress:
  assumes run: "image_loop ai fd pb ph scs 0 [] (text_state fd) = (res, st)"
  shows "sorted (map step (emitted st)) \<and>
         (\<forall>u\<in>set (emitted st). step u \<le> currentStep st \<and> totalSteps u = totalSteps_of fd) \<and>
         currentStep st \<le> 1 + length scs \<and>
         (\<forall>urls. res = Inr urls \<longrightarrow> currentStep st = 1 + length scs \<and> length urls = length scs)"
proof -
  let ?ok = "\<lambda>st. sorted (map step (emitted st)) \<and>
         (\<forall>u\<in>set (emitted st). step u \<le> currentStep st \<and> totalSteps u = totalSteps_of fd)"
  let ?I = "\<lambda>i (urls :: string list) st.
         ?ok st \<and> currentStep st = 1 + i \<and> i \<le> length scs \<and> length urls = i"
  let ?Q = "\<lambda>(res :: error + string list) st. ?ok st \<and> currentStep st \<le> 1 + length scs \<and>
         (\<forall>urls. res = Inr urls \<longrightarrow> currentStep st = 1 + length scs \<and> length urls = length scs)"
  have "?Q res st"
  proof (rule image_loop_rule [OF run, where I = ?I and Q = ?Q], goal_cases)
    case 1
    show ?case by (simp add: text_state_def)
  next
    case (2 i urls st url st1)
    then show ?case by (elim scene_image_cases) (fastforce simp: sorted_append)+
  next
    case (3 i urls st e st1)
    then show ?case by (elim scene_image_cases) (fastforce simp: sorted_append)+
  next
    case (4 i urls st)
    then show ?case by auto
  qed
  then show ?thesis by simp
qed


lemma image_loop_length:
  assumes run: "image_loop ai fd pb ph scs 0 [] st = (Inr urls, st')"
  shows "length urls = length scs"
proof -
  let ?I = "\<lambda>i (urls :: string list) (st :: run_state). i \<le> length scs \<and> length urls = i"
  let ?Q = "\<lambda>(res :: error + string list) (st :: run_state).
              \<forall>urls. res = Inr urls \<longrightarrow> length urls = length scs"
  have "?Q (Inr urls) st'"
    by (rule image_loop_rule [OF run, where I = ?I and Q = ?Q]) auto
  then show ?thesis by simp
qed

lemma image_loop_errors:
  assumes run: "image_loop ai fd pb ph scs i urls st = (Inl e, st')"
  shows "e = ProviderFailure \<or> e = ImageGenerationError \<or> e = ImagePayloadMissingError"
proof -
  let ?I = "\<lambda>(i :: nat) (urls :: string list) (st :: run_state). True"
  let ?Q = "\<lambda>(res :: error + string list) (st :: run_state).
              \<forall>e. res = Inl e \<longrightarrow>
                e = ProviderFailure \<or> e = ImageGenerationError \<or> e = ImagePayloadMissingError"
  have "?Q (Inl e) st'"
  proof (rule image_loop_rule [OF run, where I = ?I and Q = ?Q], goal_cases)
    case (3 i urls st e st1)
    then show ?case by (elim scene_image_cases) auto
  qed auto
  then show ?thesis by simp
qed

lemma run_exists:
  "\<exists>st. generateStoryWithImage ai fd ph = (result_of ai fd ph, st) \<and>
        progress_events ai fd ph = emitted st \<and> requests_sent ai fd ph = issued st"
  by (cases "generateStoryWithImage ai fd ph")
     (simp add: result_of_def progress_events_def requests_sent_def)

section \<open>The request log of the image loop and of a run\<close>

lemma fallback_settled_law:
  "fallback_settled ai fd log k \<Longrightarrow> fallback_law ai fd log failed k"
  unfolding fallback_settled_def fallback_law_def by fastforce

lemma fallback_settled_append:
  assumes "k < length log" and "fallback_settled ai fd log k"
  shows "fallback_settled ai fd (log @ new) k"
  using assms unfolding fallback_settled_def
  by (auto simp: nth_append)

lemma fallback_settled_other:
  assumes "k < length log" and "\<forall>j pb ty sc. log ! k \<noteq> PhotoImageRequest j pb ty sc"
  shows "fallback_settled ai fd log k"
  using assms unfolding fallback_settled_def by simp

lemma fallback_law_other:
  assumes "k < length log" and "\<forall>j pb ty sc. log ! k \<noteq> PhotoImageRequest j pb ty sc"
  shows "fallback_law ai fd log failed k"
  using assms unfolding fallback_law_def by simp

lemma fallback_after_body:
  assumes body: "scene_image ai fd pb ph scene i st = (res, st1)"
    and old: "\<forall>k<length (issued st). fallback_settled ai fd (issued st) k"
  shows "\<forall>k<length (issued st1).
           fallback_law ai fd (issued st1) (res = Inl ImageGenerationError) k \<and>
           ((\<exists>url. res = Inr url) \<longrightarrow> fallback_settled ai fd (issued st1) k)"
proof (intro allI impI)
  fix k
  assume k: "k < length (issued st1)"
  let ?n = "length (issued st)"
  have before: "fallback_settled ai fd (issued st @ new) k" if "k < ?n" for new
    using that old by (simp add: fallback_settled_append)
  from body show "fallback_law ai fd (issued st1) (res = Inl ImageGenerationError) k \<and>
           ((\<exists>url. res = Inr url) \<longrightarrow> fallback_settled ai fd (issued st1) k)"
  proof (cases rule: scene_image_cases)
    case rejected
    show ?thesis
    proof (cases "k < ?n")
      case True
      with before rejected show ?thesis by (simp add: fallback_settled_law)
    next
      case False
      with k rejected have "k = ?n" by simp
      with rejected show ?thesis by (simp add: fallback_law_def)
    qed
  next
    case (direct r ps)
    show ?thesis
    proof (cases "k < ?n")
      case True
      with before direct show ?thesis by (simp add: fallback_settled_law)
    next
      case False
      with k direct have "k = ?n" by simp
      with direct show ?thesis by (simp add: fallback_law_def fallback_settled_def)
    qed
  next
    case (fallback_rejected r)
    show ?thesis
    proof (cases "k < ?n")
      case True
      with before fallback_rejected show ?thesis by (simp add: fallback_settled_law)
    next
      case False
      with k fallback_rejected have "k = ?n \<or> k = Suc ?n" by auto
      with fallback_rejected show ?thesis
        by (auto simp: fallback_law_def nth_append)
    qed
  next
    case (both_empty r r2)
    show ?thesis
    proof (cases "k < ?n")
      case True
      with before both_empty show ?thesis by (simp add: fallback_settled_law)
    next
      case False
      with k both_empty have "k = ?n \<or> k = Suc ?n" by auto
      with both_empty show ?thesis
        by (auto simp: fallback_law_def nth_append)
    qed
  next
    case (fallback r r2 ps)
    show ?thesis
    proof (cases "k < ?n")
      case True
      with before fallback show ?thesis by (simp add: fallback_settled_law)
    next
      case False
      with k fallback have "k = ?n \<or> k = Suc ?n" by auto
      with fallback show ?thesis
        by (auto simp: fallback_law_def fallback_settled_def nth_append)
    qed
  qed
qed

lemma image_loop_fallbacks:
  assumes run: "image_loop ai fd pb ph scs i urls st0 = (res, st)"
    and init: "\<forall>k<length (issued st0). fallback_settled ai fd (issued st0) k"
  shows "\<forall>k<length (issued st).
           fallback_law ai fd (issued st) (res = Inl ImageGenerationError) k \<and>
           ((\<exists>urls. res = Inr urls) \<longrightarrow> fallback_settled ai fd (issued st) k)"
proof -
  let ?I = "\<lambda>(i :: nat) (urls :: string list) st.
     \<forall>k<length (issued st). fallback_settled ai fd (issued st) k"
  let ?Q = "\<lambda>(res :: error + string list) st.
     \<forall>k<length (issued st).
           fallback_law ai fd (issued st) (res = Inl ImageGenerationError) k \<and>
           ((\<exists>urls. res = Inr urls) \<longrightarrow> fallback_settled ai fd (issued st) k)"
  have "?Q res st"
  proof (rule image_loop_rule [OF run, where I = ?I and Q = ?Q], goal_cases)
    case 1
    from init show ?case .
  next
    case (2 i urls st url st1)
    from fallback_after_body [OF 2(3) 2(2)] show ?case by simp
  next
    case (3 i urls st e st1)
    from fallback_after_body [OF 3(3) 3(2)] show ?case by simp
  next
    case (4 i urls st)
    then show ?case by (simp add: fallback_settled_law)
  qed
  then show ?thesis .
qed


lemma image_loop_log_shape:
  assumes run: "image_loop ai fd pb ph scs 0 [] st0 = (res, st)"
    and init: "\<forall>q\<in>set (issued st0). scene_index q = None \<and> \<not> is_narration q"
  shows "\<forall>q\<in>set (issued st). \<not> is_narration q"
    and "length (filter (fallback_for j) (issued st)) \<le> 1"
proof -
  let ?I = "\<lambda>(i :: nat) (urls :: string list) st.
     (\<forall>q\<in>set (issued st). \<not> is_narration q) \<and>
     (\<forall>j. length (filter (fallback_for j) (issued st)) \<le> 1) \<and>
     (\<forall>j. i \<le> j \<longrightarrow> filter (fallback_for j) (issued st) = [])"
  let ?L = "\<lambda>st :: run_state.
     (\<forall>q\<in>set (issued st). \<not> is_narration q) \<and>
     (\<forall>j. length (filter (fallback_for j) (issued st)) \<le> 1)"
  let ?Q = "\<lambda>(res :: error + string list) st. ?L st"
  have none: "filter (fallback_for j) (issued st0) = []" for j
  proof -
    have "\<not> fallback_for j q" if "q \<in> set (issued st0)" for q
      using init that by (cases q) auto
    then show ?thesis by (simp add: filter_empty_conv)
  qed
  have body: "?I (Suc i) (urls @ [url]) st1 \<and> ?L st1"
    if "scene_image ai fd pb ph sc i st = (r, st1)" and inv: "?I i urls st"
    for i urls url st r st1 sc
  proof -
    from inv have a: "\<forall>q\<in>set (issued st). \<not> is_narration q"
      and b: "length (filter (fallback_for j) (issued st)) \<le> 1"
      and c: "i \<le> j \<Longrightarrow> filter (fallback_for j) (issued st) = []" for j
      by simp_all
    have d: "filter (fallback_for i) (issued st) = []" by (simp add: c)
    have e: "filter (fallback_for j) (issued st) = []" if "Suc i \<le> j" for j
      using that by (simp add: c)
    from that(1) show ?thesis
      by (cases rule: scene_image_cases) (use a b d e in auto)
  qed
  have "?Q res st"
  proof (rule image_loop_rule [OF run, where I = ?I and Q = ?Q], goal_cases)
    case 1
    from init none show ?case by simp
  next
    case (2 i urls st url st1)
    from body [OF 2(3) 2(2)] show ?case by simp
  next
    case (3 i urls st e st1)
    from body [OF 3(3) 3(2)] show ?case by simp
  next
    case (4 i urls st)
    then show ?case by simp
  qed
  then show "\<forall>q\<in>set (issued st). \<not> is_narration q"
    and "length (filter (fallback_for j) (issued st)) \<le> 1"
    by simp_all
qed


lemma image_settled_law:
  "image_settled ai log urls k \<Longrightarrow> image_law ai log missing None k"
  "image_settled ai log urls k \<Longrightarrow> image_law ai log missing (Some urls) k"
  unfolding image_settled_def image_law_def by fastforce+

lemma image_settled_append:
  assumes "k < length log" and "image_settled ai log urls k"
  shows "image_settled ai (log @ new) (urls @ extra) k"
  using assms unfolding image_settled_def
  by (fastforce simp: nth_append)

lemma image_law_append:
  assumes "k < length log" and "image_law ai log missing imgs k"
  shows "image_law ai (log @ new) missing imgs k"
  using assms unfolding image_law_def
  by (simp add: nth_append)

lemma image_law_other:
  assumes "scene_index (log ! k) = None"
  shows "image_law ai log missing imgs k"
  using assms unfolding image_law_def by simp

lemma images_after_body:
  assumes body: "scene_image ai fd pb ph scene i st = (res, st1)"
    and old: "\<forall>k<length (issued st). image_settled ai (issued st) urls k"
    and len: "length urls = i"
  shows "\<forall>k<length (issued st1).
           (case res of
              Inl e \<Rightarrow> image_law ai (issued st1) (e = ImagePayloadMissingError) None k
            | Inr url \<Rightarrow> image_settled ai (issued st1) (urls @ [url]) k)"
proof (intro allI impI)
  fix k
  assume k: "k < length (issued st1)"
  let ?n = "length (issued st)"
  have before: "image_settled ai (issued st @ new) (urls @ extra) k" if "k < ?n" for new extra
    using that old by (simp add: image_settled_append)
  have before': "image_law ai (issued st @ new) missing None k" if "k < ?n" for new missing
    using before [OF that, of new "[]"] by (simp add: image_settled_law)
  from body show "case res of
              Inl e \<Rightarrow> image_law ai (issued st1) (e = ImagePayloadMissingError) None k
            | Inr url \<Rightarrow> image_settled ai (issued st1) (urls @ [url]) k"
  proof (cases rule: scene_image_cases)
    case rejected
    show ?thesis
    proof (cases "k < ?n")
      case True
      with before' rejected show ?thesis by simp
    next
      case False
      with k rejected have "k = ?n" by simp
      with rejected show ?thesis by (simp add: image_law_def)
    qed
  next
    case (direct r ps)
    show ?thesis
    proof (cases "k < ?n")
      case True
      with before before' direct show ?thesis by auto
    next
      case False
      with k direct have "k = ?n" by simp
      with direct len show ?thesis
        by (auto simp: image_law_def image_settled_def)
    qed
  next
    case (fallback_rejected r)
    show ?thesis
    proof (cases "k < ?n")
      case True
      with before' fallback_rejected show ?thesis by simp
    next
      case False
      with k fallback_rejected have "k = ?n \<or> k = Suc ?n" by auto
      with fallback_rejected show ?thesis
        by (auto simp: image_law_def nth_append)
    qed
  next
    case (both_empty r r2)
    show ?thesis
    proof (cases "k < ?n")
      case True
      with before' both_empty show ?thesis by simp
    next
      case False
      with k both_empty have "k = ?n \<or> k = Suc ?n" by auto
      with both_empty show ?thesis
        by (auto simp: image_law_def nth_append)
    qed
  next
    case (fallback r r2 ps)
    show ?thesis
    proof (cases "k < ?n")
      case True
      with before before' fallback show ?thesis by auto
    next
      case False
      with k fallback have "k = ?n \<or> k = Suc ?n" by auto
      with fallback len show ?thesis
        by (auto simp: image_law_def image_settled_def nth_append)
    qed
  qed
qed

lemma image_loop_images:
  assumes run: "image_loop ai fd pb ph scs 0 [] st0 = (res, st)"
    and init: "\<forall>q\<in>set (issued st0). scene_index q = None"
  shows "\<forall>k<length (issued st).
           image_law ai (issued st) (res = Inl ImagePayloadMissingError)
             (case res of Inl e \<Rightarrow> None | Inr urls \<Rightarrow> Some urls) k"
proof -
  let ?I = "\<lambda>(i :: nat) (urls :: string list) st.
     length urls = i \<and> (\<forall>k<length (issued st). image_settled ai (issued st) urls k)"
  let ?Q = "\<lambda>(res :: error + string list) st.
     \<forall>k<length (issued st).
           image_law ai (issued st) (res = Inl ImagePayloadMissingError)
             (case res of Inl e \<Rightarrow> None | Inr urls \<Rightarrow> Some urls) k"
  have "?Q res st"
  proof (rule image_loop_rule [OF run, where I = ?I and Q = ?Q], goal_cases)
    case 1
    from init show ?case by (simp add: image_settled_def)
  next
    case (2 i urls st url st1)
    then have "\<forall>k<length (issued st). image_settled ai (issued st) urls k" "length urls = i"
      by simp_all
    from images_after_body [OF 2(3) this] 2(2) show ?case by simp
  next
    case (3 i urls st e st1)
    then have "\<forall>k<length (issued st). image_settled ai (issued st) urls k" "length urls = i"
      by simp_all
    from images_after_body [OF 3(3) this] show ?case by simp
  next
    case (4 i urls st)
    then show ?case by (simp add: image_settled_law)
  qed
  then show ?thesis .
qed

lemma text_state_requests:
  "issued (text_state fd) = [StoryRequest fd (numScenes fd) (totalWords fd)]"
  "\<forall>q\<in>set (issued (text_state fd)). scene_index q = None \<and> \<not> is_narration q"
  "\<forall>k<length (issued (text_state fd)). fallback_settled ai fd (issued (text_state fd)) k"
  by (simp_all add: text_state_def fallback_settled_def)

lemma image_law_weaken:
  assumes "image_law ai log False (Some urls) k"
  shows "image_law ai log missing None k" and "image_law ai log missing (Some urls) k"
  using assms unfolding image_law_def
  by (fastforce split: option.splits)+

lemma run_requests:
  assumes run: "generateStoryWithImage ai fd ph = (res, st)"
  shows "\<forall>k<length (issued st).
           fallback_law ai fd (issued st) (res = Inl ImageGenerationError) k \<and>
           image_law ai (issued st) (res = Inl ImagePayloadMissingError)
             (case res of Inl e \<Rightarrow> None | Inr sr \<Rightarrow> Some (imageUrls sr)) k \<and>
           (\<forall>t ra. issued st ! k = NarrationRequest t \<and> ai k (issued st ! k) = Some ra \<longrightarrow>
              (\<exists>sr. res = Inr sr \<and> audioBase64 sr = first_part_data ra))"
    and "length (filter (fallback_for j) (issued st)) \<le> 1"
proof -
  let ?sreq = "StoryRequest fd (numScenes fd) (totalWords fd)"
  let ?P = "\<lambda>res st. \<forall>k<length (issued st).
           fallback_law ai fd (issued st) (res = Inl ImageGenerationError) k \<and>
           image_law ai (issued st) (res = Inl ImagePayloadMissingError)
             (case res of Inl e \<Rightarrow> None | Inr sr \<Rightarrow> Some (imageUrls sr)) k \<and>
           (\<forall>t ra. issued st ! k = NarrationRequest t \<and> ai k (issued st ! k) = Some ra \<longrightarrow>
              (\<exists>sr. res = Inr sr \<and> audioBase64 sr = first_part_data ra))"
  have only_story: "?P res st \<and> length (filter (fallback_for j) (issued st)) \<le> 1"
    if "issued st = [?sreq]" for res :: "error + StoryResult" and st :: run_state
    using that by (simp add: fallback_law_def image_law_def)
  have in_loop: "?P (Inl e) st \<and> length (filter (fallback_for j) (issued st)) \<le> 1"
    if loop: "image_loop ai fd pb ph scs 0 [] (text_state fd) = (Inl e, st)" for e pb scs
  proof -
    note f = image_loop_fallbacks [OF loop text_state_requests(3)]
    have init: "\<forall>q\<in>set (issued (text_state fd)). scene_index q = None"
      using text_state_requests(2) by blast
    note g = image_loop_images [OF loop init]
    note h = image_loop_log_shape [OF loop text_state_requests(2)]
    have "\<not> (issued st ! k = NarrationRequest t)" if "k < length (issued st)" for k t
    proof
      assume "issued st ! k = NarrationRequest t"
      moreover from that have "issued st ! k \<in> set (issued st)" by simp
      ultimately show False using h(1) by fastforce
    qed
    with f g h(2) show ?thesis by simp
  qed
  have after_loop: "?P res st \<and> length (filter (fallback_for j) (issued st)) \<le> 1"
    if loop: "image_loop ai fd pb ph scs 0 [] (text_state fd) = (Inr urls, st2)"
      and log: "issued st = issued st2 @ [NarrationRequest t]"
      and res: "ai (length (issued st2)) (NarrationRequest t) = None \<and> res = Inl ProviderFailure
          \<or> (\<exists>ra. ai (length (issued st2)) (NarrationRequest t) = Some ra \<and>
                res = Inr \<lparr>story = t, scenes = scs, imageUrls = urls,
                           audioBase64 = first_part_data ra\<rparr>)"
    for pb scs urls st2 t and res :: "error + StoryResult" and st :: run_state
  proof -
    note f = image_loop_fallbacks [OF loop text_state_requests(3)]
    have init: "\<forall>q\<in>set (issued (text_state fd)). scene_index q = None"
      using text_state_requests(2) by blast
    note g = image_loop_images [OF loop init]
    note h = image_loop_log_shape [OF loop text_state_requests(2)]
    have count: "length (filter (fallback_for j) (issued st)) \<le> 1"
      using h(2) [of j] log by simp
    have "fallback_law ai fd (issued st) (res = Inl ImageGenerationError) k \<and>
           image_law ai (issued st) (res = Inl ImagePayloadMissingError)
             (case res of Inl e \<Rightarrow> None | Inr sr \<Rightarrow> Some (imageUrls sr)) k \<and>
           (\<forall>t ra. issued st ! k = NarrationRequest t \<and> ai k (issued st ! k) = Some ra \<longrightarrow>
              (\<exists>sr. res = Inr sr \<and> audioBase64 sr = first_part_data ra))"
      if k: "k < length (issued st)" for k
    proof (cases "k < length (issued st2)")
      case True
      from f True have "fallback_settled ai fd (issued st2) k" by simp
      then have 1: "fallback_law ai fd (issued st) (res = Inl ImageGenerationError) k"
        using True log by (simp add: fallback_settled_append fallback_settled_law)
      from g True have "image_law ai (issued st2) False (Some urls) k" by simp
      then have "image_law ai (issued st) False (Some urls) k"
        using True log by (simp add: image_law_append)
      then have 2: "image_law ai (issued st) (res = Inl ImagePayloadMissingError)
             (case res of Inl e \<Rightarrow> None | Inr sr \<Rightarrow> Some (imageUrls sr)) k"
        using res image_law_weaken [of ai "issued st" urls k]
        by (elim disjE exE conjE) simp_all
      from True have "issued st2 ! k \<in> set (issued st2)" by simp
      with h(1) have "\<not> is_narration (issued st2 ! k)" by blast
      then have 3: "issued st ! k \<noteq> NarrationRequest t'" for t'
        using True log by (auto simp: nth_append)
      from 1 2 3 show ?thesis by simp
    next
      case False
      with k log have keq: "k = length (issued st2)" by simp
      then have at: "issued st ! k = NarrationRequest t" using log by simp
      then have 1: "fallback_law ai fd (issued st) (res = Inl ImageGenerationError) k"
        by (simp add: fallback_law_def)
      from at have 2: "image_law ai (issued st) (res = Inl ImagePayloadMissingError)
             (case res of Inl e \<Rightarrow> None | Inr sr \<Rightarrow> Some (imageUrls sr)) k"
        by (simp add: image_law_def)
      from at keq res have 3: "\<forall>t ra. issued st ! k = NarrationRequest t \<and>
          ai k (issued st ! k) = Some ra \<longrightarrow>
              (\<exists>sr. res = Inr sr \<and> audioBase64 sr = first_part_data ra)"
        by auto
      from 1 2 3 show ?thesis by simp
    qed
    with count show ?thesis by blast
  qed
  from run have "?P res st \<and> length (filter (fallback_for j) (issued st)) \<le> 1"
  proof (cases rule: run_cases)
    case text_rejected
    then show ?thesis by (intro only_story) simp
  next
    case (unparsable r)
    then show ?thesis by (intro only_story) simp
  next
    case (text_error r sv)
    then show ?thesis by (intro only_story) (simp add: text_state_def)
  next
    case (not_array r l)
    then show ?thesis by (intro only_story) (simp add: text_state_def)
  next
    case (file_error r scs)
    then show ?thesis by (intro only_story) (simp add: text_state_def)
  next
    case (image_failed r scs pb e)
    with in_loop [OF image_failed(5)] show ?thesis by simp
  next
    case (mismatch r scs pb urls)
    with image_loop_length [OF mismatch(5)] show ?thesis by simp
  next
    case (audio_rejected r scs pb urls st2)
    show ?thesis
      by (rule after_loop [OF audio_rejected(5) audio_rejected(9)])
         (simp add: audio_rejected)
  next
    case (success r scs pb urls st2 ra)
    show ?thesis
      by (rule after_loop [OF success(5) success(9)]) (simp add: success)
  qed
  then show "?P res st" and "length (filter (fallback_for j) (issued st)) \<le> 1"
    by blast+
qed

section \<open>The scripted runs\<close>

lemmas run_defs =
  generateStoryWithImage_def illustrate_and_narrate_def narrate_def
  scene_image_def attempt_image_def generateContent_def report_def updateProgress_def
  onProgress_def candidate_parts_def imageUrl_def interpolate_def
  numScenes_def totalWords_def totalSteps_of_def selectedLength_def lengthOptions_def
  Object_prototype_def text_state_def

lemmas example_defs =
  example_form_def example_photo_def example_scenes_def text_part_def inline_part_def
  parts_response_def blocked_response_def scenes_response_def example_images_def
  example_requests_def example_events_def

lemma example_loop:
  "image_loop (example_provider narration) example_form ''QUJD'' example_photo example_scenes
     0 [] (text_state example_form) =
     (Inr example_images,
      \<lparr>currentStep = 7, emitted = example_events, issued = example_requests\<rparr>)"
  by (simp add: run_defs image_loop.simps example_defs example_provider_def)

lemma example_run:
  "generateStoryWithImage (example_provider narration) example_form example_photo =
     (Inr (example_result narration),
      \<lparr>currentStep = 8,
       emitted = example_events @
         [\<lparr>step = 7, totalSteps = Num 8, message = NarratorMessage\<rparr>,
          \<lparr>step = 8, totalSteps = Num 8, message = ReadyMessage\<rparr>],
       issued = example_requests @ [NarrationRequest (join blank_line example_scenes)]\<rparr>)"
proof -
  have plan: "numScenes example_form = Some 6" "totalSteps_of example_form = Num 8"
    by (simp_all add: run_defs example_form_def)
  have start: "example_provider narration 0
      (StoryRequest example_form (numScenes example_form) (totalWords example_form)) =
      Some (scenes_response example_scenes)"
    by (simp add: example_provider_def)
  have entry: "updateProgress example_form StoryWrittenMessage
      (snd (generateContent (example_provider narration)
        (StoryRequest example_form (numScenes example_form) (totalWords example_form))
        (report example_form PlotMessage \<lparr>currentStep = 0, emitted = [], issued = []\<rparr>))) =
      text_state example_form"
    by (simp add: text_state_def updateProgress_def report_def onProgress_def
        generateContent_def)
  have sizes: "length example_scenes = 6" "length example_images = 6"
    "length example_requests = 8"
    by (simp_all add: example_defs)
  have audio: "example_provider narration 8 (NarrationRequest (join blank_line example_scenes)) =
      Some narration"
    by (simp add: example_provider_def)
  have photo: "base64 example_photo = Some ''QUJD''"
    by (simp add: example_photo_def)
  have "illustrate_and_narrate (example_provider narration) example_form example_photo
      (Array example_scenes) (text_state example_form) =
     (Inr (example_result narration),
      \<lparr>currentStep = 8,
       emitted = example_events @
         [\<lparr>step = 7, totalSteps = Num 8, message = NarratorMessage\<rparr>,
          \<lparr>step = 8, totalSteps = Num 8, message = ReadyMessage\<rparr>],
       issued = example_requests @ [NarrationRequest (join blank_line example_scenes)]\<rparr>)"
    unfolding illustrate_and_narrate_def
    by (simp add: plan sizes example_loop narrate_def generateContent_def report_def
        updateProgress_def onProgress_def audio example_result_def photo)
  with start entry show ?thesis
    by (simp add: generateStoryWithImage_def generateContent_def scenes_response_def)
qed



lemma example_observed:
  "result_of (example_provider narration) example_form example_photo =
     Inr (example_result narration)"
  "progress_events (example_provider narration) example_form example_photo =
     example_events @
       [\<lparr>step = 7, totalSteps = Num 8, message = NarratorMessage\<rparr>,
        \<lparr>step = 8, totalSteps = Num 8, message = ReadyMessage\<rparr>]"
  "requests_sent (example_provider narration) example_form example_photo =
     example_requests @ [NarrationRequest (join blank_line example_scenes)]"
  by (simp_all add: result_of_def progress_events_def requests_sent_def example_run)



section \<open>The plan\<close>

text \<open>
  The four options give the documented plans, and so does every length that is neither
  an option nor the name of a member of \<open>Object.prototype\<close>. A length that names such a
  member selects the member, which is truthy, so the fallback of line 37 is not taken.
\<close>

lemma lengthOptions_plan:
  "storyLength fd = ''5'' \<Longrightarrow> numScenes fd = Some 6 \<and> totalWords fd = Some 400"
  "storyLength fd = ''10'' \<Longrightarrow> numScenes fd = Some 8 \<and> totalWords fd = Some 800"
  "storyLength fd = ''15'' \<Longrightarrow> numScenes fd = Some 10 \<and> totalWords fd = Some 1200"
  "storyLength fd = ''20'' \<Longrightarrow> numScenes fd = Some 12 \<and> totalWords fd = Some 1600"
  "storyLength fd \<notin> set Object_prototype \<Longrightarrow> storyLength fd \<notin> {''5'', ''10'', ''15'', ''20''} \<Longrightarrow>
     numScenes fd = Some 6 \<and> totalWords fd = Some 400"
  by (simp_all add: numScenes_def totalWords_def selectedLength_def lengthOptions_def)

lemma inherited_length_unplanned:
  "storyLength fd \<in> set Object_prototype \<Longrightarrow>
     numScenes fd = None \<and> totalWords fd = None \<and> totalSteps_of fd = NaN"
  by (auto simp: numScenes_def totalWords_def totalSteps_of_def selectedLength_def
      lengthOptions_def Object_prototype_def)

text \<open>
  Claim C5 holds of the four options and fails of the length \<open>constructor\<close>, which is
  not one of them: the lookup yields the inherited constructor function, and the plan
  has neither a scene count nor a word count.
\<close>

theorem inherited_length_has_no_plan:
  "lengthOptions ''constructor'' = Inherited \<and>
   numScenes (example_form\<lparr>storyLength := ''constructor''\<rparr>) = None \<and>
   totalWords (example_form\<lparr>storyLength := ''constructor''\<rparr>) = None"
  by (simp add: numScenes_def totalWords_def selectedLength_def lengthOptions_def
      Object_prototype_def example_form_def)

section \<open>Shape of the result\<close>

text \<open>
  \<open>join\<close> written out with the functions of the list library: the first element, then
  every further element in order, each preceded by the separator.
\<close>

lemma join_concat: "join sep (x # xs) = x @ concat (map (\<lambda>s. sep @ s) xs)"
  by (induction xs arbitrary: x) simp_all

text \<open>
  Claim C1. Whenever the pipeline returns a result, the scenes and the images of the
  result have the same length, which is the scene count of the plan, and the story text
  is the scenes joined in order with a blank line between them: the first scene, then
  every further scene in order, each preceded by two line feeds.
\<close>

theorem scenes_images_plan_agree:
  assumes "result_of ai fd ph = Inr r"
  shows "length (scenes r) = length (imageUrls r) \<and>
         Some (length (scenes r)) = numScenes fd \<and>
         Some (length (imageUrls r)) = numScenes fd \<and>
         story r = join blank_line (scenes r) \<and>
         story r =
           (case scenes r of
              [] \<Rightarrow> []
            | x # xs \<Rightarrow> x @ concat (map (\<lambda>s. [CHR 0x0A, CHR 0x0A] @ s) xs))"
proof -
  obtain st where run: "generateStoryWithImage ai fd ph = (Inr r, st)"
    using assms run_exists [of ai fd ph] by auto
  have written_out: "join blank_line scs =
      (case scs of [] \<Rightarrow> [] | x # xs \<Rightarrow> x @ concat (map (\<lambda>s. [CHR 0x0A, CHR 0x0A] @ s) xs))"
    for scs
    by (cases scs) (simp_all only: join_concat blank_line_def join.simps list.case)
  from run show ?thesis
  proof (cases rule: run_cases)
    case (success resp scs pb urls st2 ra)
    from success(3,6) have "length scs = length urls"
      by (metis option.inject)
    with success(3,6,8) written_out [of scs] show ?thesis by simp
  qed simp_all
qed

theorem scenes_images_plan_agree_witness:
  "result_of (example_provider spoken_response) example_form example_photo =
     Inr (example_result spoken_response) \<and>
   scenes (example_result spoken_response) =
     [''one'', ''two'', ''three'', ''four'', ''five'', ''six''] \<and>
   length (scenes (example_result spoken_response)) =
     length (imageUrls (example_result spoken_response)) \<and>
   Some (length (scenes (example_result spoken_response))) = numScenes example_form \<and>
   Some (length (imageUrls (example_result spoken_response))) = numScenes example_form \<and>
   story (example_result spoken_response) =
     join blank_line (scenes (example_result spoken_response)) \<and>
   story (example_result spoken_response) =
     ''one'' @ [CHR 0x0A, CHR 0x0A] @ ''two'' @ [CHR 0x0A, CHR 0x0A] @ ''three'' @
     [CHR 0x0A, CHR 0x0A] @ ''four'' @ [CHR 0x0A, CHR 0x0A] @ ''five'' @
     [CHR 0x0A, CHR 0x0A] @ ''six''"
proof -
  have listed: "scenes (example_result spoken_response) =
      [''one'', ''two'', ''three'', ''four'', ''five'', ''six'']"
    by (simp add: example_result_def example_scenes_def)
  from scenes_images_plan_agree [OF example_observed(1) [of spoken_response]]
    example_observed(1) [of spoken_response] listed
  show ?thesis by (simp add: blank_line_def)
qed

text \<open>
  Claim C8. Whenever the image loop ends without an error it has produced one image per
  scene, so the test after the loop never fails: no run ends with
  \<open>SceneImageCountMismatch\<close>.
\<close>

theorem image_count_mismatch_unreachable:
  "(\<forall>pb scs st urls st'.
      image_loop ai fd pb ph scs 0 [] st = (Inr urls, st') \<longrightarrow> length urls = length scs) \<and>
   result_of ai fd ph \<noteq> Inl SceneImageCountMismatch"
proof
  show "\<forall>pb scs st urls st'.
      image_loop ai fd pb ph scs 0 [] st = (Inr urls, st') \<longrightarrow> length urls = length scs"
    by (blast dest: image_loop_length)
next
  obtain st where run: "generateStoryWithImage ai fd ph = (result_of ai fd ph, st)"
    using run_exists [of ai fd ph] by auto
  from run show "result_of ai fd ph \<noteq> Inl SceneImageCountMismatch"
  proof (cases rule: run_cases)
    case (image_failed r scs pb e)
    with image_loop_errors [OF image_failed(5)] show ?thesis by auto
  next
    case (mismatch r scs pb urls)
    with image_loop_length [OF mismatch(5)] show ?thesis by simp
  qed auto
qed


theorem image_count_mismatch_unreachable_witness:
  "image_loop (example_provider spoken_response) example_form ''QUJD'' example_photo
     example_scenes 0 [] (text_state example_form) =
     (Inr example_images,
      \<lparr>currentStep = 7, emitted = example_events, issued = example_requests\<rparr>) \<and>
   length example_images = length example_scenes \<and>
   result_of (example_provider spoken_response) example_form example_photo \<noteq>
     Inl SceneImageCountMismatch"
  using image_count_mismatch_unreachable [of "example_provider spoken_response" example_form
      example_photo] example_loop [of spoken_response]
  by blast

lemma run_progress:
  assumes run: "generateStoryWithImage ai fd ph = (res, st)"
  shows "sorted (map step (emitted st))"
    and "\<forall>u\<in>set (emitted st). step u \<le> currentStep st \<and> totalSteps u = totalSteps_of fd"
    and "numScenes fd = Some n \<Longrightarrow> currentStep st \<le> n + 2"
    and "res = Inr r \<Longrightarrow> emitted st \<noteq> [] \<and> numScenes fd = Some (currentStep st - 2) \<and>
           2 \<le> currentStep st \<and> step (last (emitted st)) = currentStep st"
proof -
  have "sorted (map step (emitted st)) \<and>
        (\<forall>u\<in>set (emitted st). step u \<le> currentStep st \<and> totalSteps u = totalSteps_of fd) \<and>
        (numScenes fd = Some n \<longrightarrow> currentStep st \<le> n + 2) \<and>
        (res = Inr r \<longrightarrow> emitted st \<noteq> [] \<and> numScenes fd = Some (currentStep st - 2) \<and>
           2 \<le> currentStep st \<and> step (last (emitted st)) = currentStep st)"
    using run
  proof (cases rule: run_cases)
    case text_rejected
    then show ?thesis by simp
  next
    case (unparsable r)
    then show ?thesis by auto
  next
    case (text_error r sv)
    then show ?thesis by (simp add: text_state_def)
  next
    case (not_array r l)
    then show ?thesis by (simp add: text_state_def)
  next
    case (file_error r scs)
    then show ?thesis by (simp add: text_state_def)
  next
    case (image_failed r' scs pb e)
    with image_loop_progress [OF image_failed(5)] show ?thesis by auto
  next
    case (mismatch r' scs pb urls)
    with image_loop_progress [OF mismatch(5)] show ?thesis by auto
  next
    case (audio_rejected r' scs pb urls st2)
    with image_loop_progress [OF audio_rejected(5)] show ?thesis
      by (auto simp: sorted_append)
  next
    case (success r' scs pb urls st2 ra)
    from image_loop_progress [OF success(5)]
    have inv: "sorted (map step (emitted st2))"
      "\<forall>u\<in>set (emitted st2). step u \<le> currentStep st2 \<and> totalSteps u = totalSteps_of fd"
      "currentStep st2 = 1 + length scs"
      by auto
    from success(3) have "numScenes fd = Some (length scs)" by simp
    with inv success(9-11) show ?thesis
      by (fastforce simp: sorted_append)
  qed
  then show "sorted (map step (emitted st))"
    and "\<forall>u\<in>set (emitted st). step u \<le> currentStep st \<and> totalSteps u = totalSteps_of fd"
    and "numScenes fd = Some n \<Longrightarrow> currentStep st \<le> n + 2"
    and "res = Inr r \<Longrightarrow> emitted st \<noteq> [] \<and> numScenes fd = Some (currentStep st - 2) \<and>
           2 \<le> currentStep st \<and> step (last (emitted st)) = currentStep st"
    by simp_all
qed

section \<open>Progress notifications\<close>

text \<open>
  Claim C3. In every run the step numbers of the notifications never decrease in the
  order of emission, and in a run that returns a result the last notification carries
  a step number equal to its total, which is the scene count plus two.
\<close>

theorem completedSteps_monotone_and_final:
  "sorted (map step (progress_events ai fd ph)) \<and>
   (\<forall>r. result_of ai fd ph = Inr r \<longrightarrow>
      progress_events ai fd ph \<noteq> [] \<and>
      (\<exists>n. numScenes fd = Some n \<and>
           totalSteps (last (progress_events ai fd ph)) = Num (n + 2) \<and>
           step (last (progress_events ai fd ph)) = n + 2))"
proof -
  obtain st where run: "generateStoryWithImage ai fd ph = (result_of ai fd ph, st)"
    and ev: "progress_events ai fd ph = emitted st"
    using run_exists [of ai fd ph] by auto
  note p = run_progress [OF run]
  have "sorted (map step (emitted st))" by (rule p(1))
  moreover have "emitted st \<noteq> [] \<and>
      (\<exists>n. numScenes fd = Some n \<and> totalSteps (last (emitted st)) = Num (n + 2) \<and>
           step (last (emitted st)) = n + 2)"
    if ok: "result_of ai fd ph = Inr r" for r
  proof -
    from p(4) [OF ok] have ne: "emitted st \<noteq> []"
      and ns: "numScenes fd = Some (currentStep st - 2)" and two: "2 \<le> currentStep st"
      and la: "step (last (emitted st)) = currentStep st"
      by simp_all
    from ne have "last (emitted st) \<in> set (emitted st)" by simp
    with p(2) have "totalSteps (last (emitted st)) = totalSteps_of fd" by blast
    with ns two have "totalSteps (last (emitted st)) = Num (currentStep st - 2 + 2)"
      by (simp add: totalSteps_of_def)
    with ne ns two la show ?thesis by simp
  qed
  ultimately show ?thesis unfolding ev by blast
qed

theorem completedSteps_monotone_and_final_witness:
  "sorted (map step (progress_events (example_provider spoken_response) example_form example_photo)) \<and>
   result_of (example_provider spoken_response) example_form example_photo =
     Inr (example_result spoken_response) \<and>
   progress_events (example_provider spoken_response) example_form example_photo \<noteq> [] \<and>
   (\<exists>n. numScenes example_form = Some n \<and>
      totalSteps (last (progress_events (example_provider spoken_response) example_form
        example_photo)) = Num (n + 2) \<and>
      step (last (progress_events (example_provider spoken_response) example_form
        example_photo)) = n + 2)"
  using completedSteps_monotone_and_final [of "example_provider spoken_response" example_form
      example_photo] example_observed(1) [of spoken_response]
  by blast

text \<open>
  For a form whose length selects a plan (one of the four options, or the first of them
  by the fallback), every notification of every run, failed runs included, stays within
  the total, and the total is the scene count plus two in all of them.
\<close>

lemma progress_within_total:
  assumes "numScenes fd = Some n"
  shows "\<forall>u\<in>set (progress_events ai fd ph).
           number_le (Num (step u)) (totalSteps u) \<and> totalSteps u = Num (n + 2)"
proof -
  obtain st where run: "generateStoryWithImage ai fd ph = (result_of ai fd ph, st)"
    and ev: "progress_events ai fd ph = emitted st"
    using run_exists [of ai fd ph] by auto
  note p = run_progress [OF run]
  from p(2) p(3) [OF assms] assms show ?thesis
    unfolding ev by (fastforce simp: totalSteps_of_def)
qed

text \<open>
  Claim C9 fails of the same length \<open>constructor\<close>: the total of every notification
  is \<open>NaN\<close>, which no step number is below, whatever the provider answers.
\<close>

theorem inherited_length_total_is_NaN:
  "progress_events (example_provider spoken_response)
     (example_form\<lparr>storyLength := ''constructor''\<rparr>) example_photo =
     [\<lparr>step = 0, totalSteps = NaN, message = PlotMessage\<rparr>,
      \<lparr>step = 1, totalSteps = NaN, message = StoryWrittenMessage\<rparr>] \<and>
   number_le (Num 0) NaN = False \<and> number_le (Num 1) NaN = False \<and>
   result_of (example_provider spoken_response)
     (example_form\<lparr>storyLength := ''constructor''\<rparr>) example_photo =
     Inl TextGenerationError"
  by (simp add: progress_events_def result_of_def run_defs example_defs example_provider_def)

section \<open>The text stage\<close>

text \<open>
  Claim C4. When the parsed payload has no usable \<open>scenes\<close> field, or one whose length
  differs from the scene count of the plan, the run ends with \<open>TextGenerationError\<close>
  and the story request stays the only request sent: no image request and no narration
  request.
\<close>

theorem wrong_scene_count_stops_run:
  assumes "ai 0 (StoryRequest fd (numScenes fd) (totalWords fd)) = Some r"
    and "parsedText r = Data sv"
    and "sv = Falsy \<or> length_of sv \<noteq> numScenes fd"
  shows "result_of ai fd ph = Inl TextGenerationError \<and>
         requests_sent ai fd ph = [StoryRequest fd (numScenes fd) (totalWords fd)]"
  using assms
  by (auto simp: result_of_def requests_sent_def generateStoryWithImage_def
      illustrate_and_narrate_def generateContent_def)

theorem wrong_scene_count_stops_run_witness:
  "short_provider 0
     (StoryRequest example_form (numScenes example_form) (totalWords example_form)) =
     Some (scenes_response [''one'', ''two'']) \<and>
   parsedText (scenes_response [''one'', ''two'']) = Data (Array [''one'', ''two'']) \<and>
   length_of (Array [''one'', ''two'']) \<noteq> numScenes example_form \<and>
   result_of short_provider example_form example_photo = Inl TextGenerationError \<and>
   requests_sent short_provider example_form example_photo =
     [StoryRequest example_form (numScenes example_form) (totalWords example_form)]"
proof -
  have a: "short_provider 0
     (StoryRequest example_form (numScenes example_form) (totalWords example_form)) =
     Some (scenes_response [''one'', ''two''])"
    by (simp add: short_provider_def)
  have b: "parsedText (scenes_response [''one'', ''two'']) = Data (Array [''one'', ''two''])"
    by (simp add: scenes_response_def)
  have c: "Array [''one'', ''two''] = Falsy \<or>
      length_of (Array [''one'', ''two'']) \<noteq> numScenes example_form"
    by (simp add: run_defs example_form_def)
  from wrong_scene_count_stops_run [of short_provider example_form
      "scenes_response [''one'', ''two'']" "Array [''one'', ''two'']" example_photo, OF a b c]
    a b c
  show ?thesis by simp
qed

section \<open>The image stage\<close>







lemma candidate_parts_relabel:
  "candidate_parts (relabel g r) = map_option (map (relabel_part g)) (candidate_parts r)"
  by (auto simp: candidate_parts_def relabel_def relabel_candidate_def
      split: option.splits list.splits)

lemma first_inlineData_relabel:
  "first_inlineData (map (relabel_part g) ps) =
     map_option (\<lambda>b. b\<lparr>mimeType := g (mimeType b)\<rparr>) (first_inlineData ps)"
  by (induction ps) (auto simp: relabel_part_def split: option.splits)

lemma imageUrl_relabel: "imageUrl (b\<lparr>mimeType := m\<rparr>) = imageUrl b"
  by (simp add: imageUrl_def)

lemma first_part_data_relabel: "first_part_data (relabel g r) = first_part_data r"
  by (auto simp: first_part_data_def candidate_parts_relabel relabel_part_def
      split: option.splits list.splits)

lemma parsedText_relabel: "parsedText (relabel g r) = parsedText r"
  by (simp add: relabel_def)

lemma generateContent_relabelled:
  "generateContent (relabelled g ai) req st =
     (map_option (relabel g) (fst (generateContent ai req st)), snd (generateContent ai req st))"
  by (simp add: generateContent_def relabelled_def)

lemma scene_image_relabelled:
  "scene_image (relabelled g ai) fd pb ph sc i st = scene_image ai fd pb ph sc i st"
  unfolding scene_image_def attempt_image_def generateContent_relabelled
  by (auto simp: generateContent_def candidate_parts_relabel first_inlineData_relabel
      imageUrl_relabel split: option.splits)

lemma image_loop_relabelled:
  "image_loop (relabelled g ai) fd pb ph scs i urls st = image_loop ai fd pb ph scs i urls st"
proof (induction ai fd pb ph scs i urls st rule: image_loop.induct)
  case (1 ai fd pb ph scs i urls st)
  show ?case
  proof (cases "i < length scs")
    case False
    then show ?thesis
      by (simp add: image_loop.simps [of _ fd pb ph scs i urls st])
  next
    case True
    obtain r st1 where body: "scene_image ai fd pb ph (scs ! i) i st = (r, st1)"
      by (cases "scene_image ai fd pb ph (scs ! i) i st")
    show ?thesis
    proof (cases r)
      case (Inl e)
      with True body show ?thesis
        by (simp add: image_loop.simps [of _ fd pb ph scs i urls st] scene_image_relabelled)
    next
      case (Inr url)
      with True body "1.IH" [OF True body [symmetric, unfolded Inr] refl] show ?thesis
        by (simp add: image_loop.simps [of _ fd pb ph scs i urls st] scene_image_relabelled)
    qed
  qed
qed

lemma run_relabelled:
  "generateStoryWithImage (relabelled g ai) fd ph = generateStoryWithImage ai fd ph"
proof -
  have narr: "narrate (relabelled g ai) fd t scs urls st = narrate ai fd t scs urls st"
    for t scs urls st
    unfolding narrate_def generateContent_relabelled
    by (auto simp: generateContent_def first_part_data_relabel split: option.splits)
  have rest: "illustrate_and_narrate (relabelled g ai) fd ph sv st =
      illustrate_and_narrate ai fd ph sv st" for sv st
    unfolding illustrate_and_narrate_def
    by (simp add: image_loop_relabelled narr
        split: scenes_value.splits option.splits prod.splits sum.splits)
  show ?thesis
    unfolding generateStoryWithImage_def generateContent_relabelled
    by (auto simp: generateContent_def parsedText_relabel rest
        split: option.splits story_data.splits)
qed

lemma image_loop_png:
  assumes run: "image_loop ai fd pb ph scs 0 [] st0 = (Inr urls, st)"
  shows "\<forall>u\<in>set urls. \<exists>d. u = ''data:image/png;base64,'' @ d"
proof -
  let ?I = "\<lambda>(i :: nat) (urls :: string list) (st :: run_state).
              \<forall>u\<in>set urls. \<exists>d. u = ''data:image/png;base64,'' @ d"
  let ?Q = "\<lambda>(res :: error + string list) (st :: run_state).
              \<forall>urls. res = Inr urls \<longrightarrow> (\<forall>u\<in>set urls. \<exists>d. u = ''data:image/png;base64,'' @ d)"
  have "?Q (Inr urls) st"
  proof (rule image_loop_rule [OF run, where I = ?I and Q = ?Q], goal_cases)
    case (2 i urls st url st1)
    from 2(3) have "\<exists>d. url = ''data:image/png;base64,'' @ d"
      by (cases rule: scene_image_cases) (auto simp: imageUrl_def)
    with 2(2) show ?case by auto
  qed auto
  then show ?thesis by simp
qed

text \<open>
  Claim C10. Every image of a returned result is a data URL that starts with
  \<open>data:image/png;base64,\<close>, and the media type the provider declares for an inline
  payload is never read: a provider that declares other media types for the same
  payloads gives the same outcome.
\<close>

theorem images_declared_png:
  "(\<forall>sr. result_of ai fd ph = Inr sr \<longrightarrow>
      (\<forall>u\<in>set (imageUrls sr). \<exists>d. u = ''data:image/png;base64,'' @ d)) \<and>
   result_of (relabelled g ai) fd ph = result_of ai fd ph"
proof
  show "\<forall>sr. result_of ai fd ph = Inr sr \<longrightarrow>
      (\<forall>u\<in>set (imageUrls sr). \<exists>d. u = ''data:image/png;base64,'' @ d)"
  proof (intro allI impI)
    fix sr
    assume ok: "result_of ai fd ph = Inr sr"
    obtain st where run: "generateStoryWithImage ai fd ph = (Inr sr, st)"
      using ok run_exists [of ai fd ph] by auto
    from run show "\<forall>u\<in>set (imageUrls sr). \<exists>d. u = ''data:image/png;base64,'' @ d"
    proof (cases rule: run_cases)
      case (success r scs pb urls st2 ra)
      with image_loop_png [OF success(5)] show ?thesis by simp
    qed simp_all
  qed
next
  show "result_of (relabelled g ai) fd ph = result_of ai fd ph"
    by (simp add: result_of_def run_relabelled)
qed

theorem images_declared_png_witness:
  "result_of (example_provider spoken_response) example_form example_photo =
     Inr (example_result spoken_response) \<and>
   imageUrls (example_result spoken_response) =
     [''data:image/png;base64,SU1H'', ''data:image/png;base64,SU1H'',
      ''data:image/png;base64,RkFMTA'', ''data:image/png;base64,SU1H'',
      ''data:image/png;base64,SU1H'', ''data:image/png;base64,SU1H''] \<and>
   (\<exists>d. imageUrls (example_result spoken_response) ! 2 = ''data:image/png;base64,'' @ d) \<and>
   example_provider spoken_response 4 (TextImageRequest 2 ''three'' ''a fox'') =
     Some (parts_response [inline_part ''RkFMTA'' ''image/webp'']) \<and>
   result_of (relabelled (\<lambda>m. Some ''image/gif'') (example_provider spoken_response))
     example_form example_photo = Inr (example_result spoken_response)"
proof -
  note ok = example_observed(1) [of spoken_response]
  have urls: "imageUrls (example_result spoken_response) =
     [''data:image/png;base64,SU1H'', ''data:image/png;base64,SU1H'',
      ''data:image/png;base64,RkFMTA'', ''data:image/png;base64,SU1H'',
      ''data:image/png;base64,SU1H'', ''data:image/png;base64,SU1H'']"
    by (simp add: example_result_def example_images_def)
  have reply: "example_provider spoken_response 4 (TextImageRequest 2 ''three'' ''a fox'') =
     Some (parts_response [inline_part ''RkFMTA'' ''image/webp''])"
    by (simp add: example_provider_def)
  from images_declared_png [of "example_provider spoken_response" example_form example_photo
      "\<lambda>m. Some ''image/gif''"] ok urls reply
  show ?thesis by simp
qed

section \<open>The audio stage\<close>

lemma no_payload_first_part:
  assumes "payloads_found r = []"
  shows "first_part_data r = None"
proof (cases "candidate_parts r")
  case None
  then show ?thesis by (simp add: first_part_data_def)
next
  case (Some ps)
  then obtain c cs ct where r: "candidates r = Some (c # cs)" "content c = Some ct"
    "parts ct = Some ps"
    by (auto simp: candidate_parts_def split: option.splits list.splits)
  with assms have "concat (map part_payloads ps) = []"
    by (simp add: payloads_found_def candidate_payloads_def)
  then have "ps = [] \<or> part_payloads (hd ps) = []"
    by (cases ps) simp_all
  with Some show ?thesis
    by (cases ps) (auto simp: first_part_data_def part_payloads_def split: option.splits)
qed

text \<open>
  Claim C7, as stated, fails: the audio stage reads the inline data of the first part of
  the first candidate only. A narration response whose first part is text and whose
  second part is the audio has an audio payload, and the result has none.
\<close>

theorem narration_after_text_is_dropped:
  "requests_sent (example_provider chatty_narration) example_form example_photo ! 8 =
     NarrationRequest (join blank_line example_scenes) \<and>
   example_provider chatty_narration 8 (NarrationRequest (join blank_line example_scenes)) =
     Some chatty_narration \<and>
   first_payload_found chatty_narration = Some ''U05E'' \<and>
   result_of (example_provider chatty_narration) example_form example_photo =
     Inr (example_result chatty_narration) \<and>
   audioBase64 (example_result chatty_narration) = None"
  by (simp add: example_observed example_requests_def example_provider_def
      first_payload_found_def payloads_found_def candidate_payloads_def part_payloads_def
      chatty_narration_def parts_response_def text_part_def inline_part_def
      example_result_def first_part_data_def candidate_parts_def)

text \<open>
  Claim C7, amended. When the narration request is answered, the run returns a result
  whose audio is the inline data of the first part of the first candidate of the
  response, absent when there is none; in particular a response without any inline
  payload gives a result without audio, and the run does not fail.
\<close>

theorem audio_is_first_part_payload:
  assumes "k < length (requests_sent ai fd ph)"
    and "requests_sent ai fd ph ! k = NarrationRequest t"
    and "ai k (NarrationRequest t) = Some ra"
  shows "\<exists>sr. result_of ai fd ph = Inr sr \<and> audioBase64 sr = first_part_data ra \<and>
              (payloads_found ra = [] \<longrightarrow> audioBase64 sr = None)"
proof -
  obtain st where run: "generateStoryWithImage ai fd ph = (result_of ai fd ph, st)"
    and log: "requests_sent ai fd ph = issued st"
    using run_exists [of ai fd ph] by auto
  from assms(1) log have k: "k < length (issued st)" by simp
  from run_requests(1) [OF run, rule_format, OF k]
  have "\<forall>t ra. issued st ! k = NarrationRequest t \<and> ai k (issued st ! k) = Some ra \<longrightarrow>
          (\<exists>sr. result_of ai fd ph = Inr sr \<and> audioBase64 sr = first_part_data ra)"
    by blast
  from this [rule_format, of t ra] assms(2,3) log
  obtain sr where "result_of ai fd ph = Inr sr" "audioBase64 sr = first_part_data ra"
    by auto
  with no_payload_first_part [of ra] show ?thesis by auto
qed

theorem audio_is_first_part_payload_witness:
  "requests_sent (example_provider spoken_response) example_form example_photo ! 8 =
     NarrationRequest (join blank_line example_scenes) \<and>
   example_provider spoken_response 8 (NarrationRequest (join blank_line example_scenes)) =
     Some spoken_response \<and>
   (\<exists>sr. result_of (example_provider spoken_response) example_form example_photo = Inr sr \<and>
         audioBase64 sr = first_part_data spoken_response) \<and>
   first_part_data spoken_response = Some ''U05E'' \<and>
   requests_sent (example_provider blocked_response) example_form example_photo ! 8 =
     NarrationRequest (join blank_line example_scenes) \<and>
   example_provider blocked_response 8 (NarrationRequest (join blank_line example_scenes)) =
     Some blocked_response \<and>
   payloads_found blocked_response = [] \<and>
   (\<exists>sr. result_of (example_provider blocked_response) example_form example_photo = Inr sr \<and>
         audioBase64 sr = None)"
proof -
  have a: "8 < length (requests_sent (example_provider n) example_form example_photo)" for n
    by (simp add: example_observed example_requests_def)
  have b: "requests_sent (example_provider n) example_form example_photo ! 8 =
     NarrationRequest (join blank_line example_scenes)" for n
    by (simp add: example_observed example_requests_def)
  have c: "example_provider n 8 (NarrationRequest (join blank_line example_scenes)) = Some n"
    for n
    by (simp add: example_provider_def)
  have d: "first_part_data spoken_response = Some ''U05E''"
    by (simp add: first_part_data_def candidate_parts_def spoken_response_def
        parts_response_def inline_part_def)
  have e: "payloads_found blocked_response = []"
    by (simp add: payloads_found_def candidate_payloads_def blocked_response_def)
  from audio_is_first_part_payload [OF a b c, of spoken_response]
    audio_is_first_part_payload [OF a b c, of blocked_response] b c d e
  show ?thesis by auto
qed

end
